theory Spec2Isabelle
  imports Main "HOL-Library.Word"
begin

section \<open>The HTTP/TLS connection manager of modules/access/http/connmgr.c\<close>

text \<open>
  The manager is orchestration code: every request is a short sequence of calls into
  collaborators that live outside connmgr.c (the TLS and TCP dialers, the proxy lookup,
  the connection constructors, stream open, initial-message fetch). The embedding keeps
  the functions of connmgr.c as they are written and takes the collaborators as
  parameters. A collaborator's answer may depend on everything that happened before, so
  each one is a function of the history of calls made so far; the history is the log
  that every function of the manager threads through and extends, in program order.

  Pointers are addresses (natural numbers); a pointer that may be NULL is an option.
  The C type unsigned is a 32-bit word. C strings are character lists. The two logging
  relays \<open>vlc_http_err\<close> and \<open>vlc_http_dbg\<close> only forward their arguments to the host's
  logger and are left out.
\<close>

subsection \<open>Data\<close>

type_synonym vlc_object_t = nat
type_synonym vlc_tls_t = nat
type_synonym vlc_http_conn = nat
type_synonym vlc_http_stream = nat
type_synonym vlc_http_msg = nat
type_synonym vlc_http_cookie_jar_t = nat
type_synonym port = "32 word"

text \<open>Of the credentials object only its address and obj.parent are read here.\<close>

record vlc_tls_creds_t =
  addr :: nat
  parent :: vlc_object_t

text \<open>Of a parsed URL only psz_host and i_port are read here.\<close>

record vlc_url_t =
  psz_host :: "string option"
  i_port :: port

text \<open>struct vlc_http_mgr.\<close>

record vlc_http_mgr =
  obj :: vlc_object_t
  creds :: "vlc_tls_creds_t option"
  jar :: "vlc_http_cookie_jar_t option"
  conn :: "vlc_http_conn option"
  use_h2c :: bool

text \<open>
  One event per call of a collaborator, with its arguments and what it returned.
  \<open>Ev_conn_store\<close> records the one assignment that puts a constructed connection into
  \<open>mgr->conn\<close>, with the value the field held just before. The \<open>free\<close> of local strings
  is not recorded.
\<close>

datatype event =
    Ev_asprintf string bool
  | Ev_getProxyUrl string "string option"
  | Ev_SocketOpenTLS vlc_tls_creds_t string port string "string list"
      "(vlc_tls_t \<times> string option) option"
  | Ev_connect_proxy vlc_object_t vlc_tls_creds_t string port bool string
      "vlc_tls_t option \<times> bool"
  | Ev_UrlParse string vlc_url_t
  | Ev_UrlClean vlc_url_t
  | Ev_SocketOpenTCP vlc_object_t string port "vlc_tls_t option"
  | Ev_ClientCreate vlc_object_t "vlc_tls_creds_t option"
  | Ev_h2_conn_create vlc_object_t vlc_tls_t "vlc_http_conn option"
  | Ev_h1_conn_create vlc_object_t vlc_tls_t bool "vlc_http_conn option"
  | Ev_conn_store "vlc_http_conn option" vlc_http_conn
  | Ev_stream_open vlc_http_conn vlc_http_msg "vlc_http_stream option"
  | Ev_msg_get_initial vlc_http_stream "vlc_http_msg option"
  | Ev_conn_release vlc_http_conn
  | Ev_tls_Close vlc_tls_t
  | Ev_tls_Delete vlc_tls_creds_t
  | Ev_malloc bool

type_synonym history = "event list"

text \<open>
  The collaborators. \<open>vlc_tls_SocketOpenTLS\<close> returns the transport together with the
  negotiated ALPN string it stores through its last argument;
  \<open>vlc_https_connect_proxy\<close> returns the transport together with the value it leaves in
  its in-out flag. \<open>asprintf_ok\<close> and \<open>malloc_ok\<close> say whether the allocation succeeds.
\<close>

record env =
  asprintf_ok :: "history \<Rightarrow> bool"
  vlc_getProxyUrl :: "history \<Rightarrow> string \<Rightarrow> string option"
  vlc_tls_SocketOpenTLS :: "history \<Rightarrow> vlc_tls_creds_t \<Rightarrow> string \<Rightarrow> port \<Rightarrow> string
      \<Rightarrow> string list \<Rightarrow> (vlc_tls_t \<times> string option) option"
  vlc_https_connect_proxy :: "history \<Rightarrow> vlc_object_t \<Rightarrow> vlc_tls_creds_t \<Rightarrow> string
      \<Rightarrow> port \<Rightarrow> bool \<Rightarrow> string \<Rightarrow> vlc_tls_t option \<times> bool"
  vlc_UrlParse :: "history \<Rightarrow> string \<Rightarrow> vlc_url_t"
  vlc_tls_SocketOpenTCP :: "history \<Rightarrow> vlc_object_t \<Rightarrow> string \<Rightarrow> port \<Rightarrow> vlc_tls_t option"
  vlc_tls_ClientCreate :: "history \<Rightarrow> vlc_object_t \<Rightarrow> vlc_tls_creds_t option"
  vlc_h2_conn_create :: "history \<Rightarrow> vlc_object_t \<Rightarrow> vlc_tls_t \<Rightarrow> vlc_http_conn option"
  vlc_h1_conn_create :: "history \<Rightarrow> vlc_object_t \<Rightarrow> vlc_tls_t \<Rightarrow> bool
      \<Rightarrow> vlc_http_conn option"
  vlc_http_stream_open :: "history \<Rightarrow> vlc_http_conn \<Rightarrow> vlc_http_msg
      \<Rightarrow> vlc_http_stream option"
  vlc_http_msg_get_initial :: "history \<Rightarrow> vlc_http_stream \<Rightarrow> vlc_http_msg option"
  malloc_ok :: "history \<Rightarrow> bool"

text \<open>The only way the code can stop without returning is the assert in the release.\<close>

datatype error = Assertion_failed

subsection \<open>The dialer\<close>

text \<open>The conversion \<open>%u\<close> of printf: decimal digits, most significant first.\<close>

fun fmt_u :: "nat \<Rightarrow> string" where
  "fmt_u n = (if n < 10 then [char_of (48 + n)]
              else fmt_u (n div 10) @ [char_of (48 + n mod 10)])"

declare fmt_u.simps [simp del]

text \<open>
  \<open>vlc_https_connect\<close>: the port defaults to 443, the ALPN list offered is
  \<open>alpn + !*two\<close>, and on success the flag is overwritten by whether the negotiated
  protocol is "h2". On failure the flag is left as it was.
\<close>

definition vlc_https_connect ::
  "env \<Rightarrow> vlc_tls_creds_t \<Rightarrow> string \<Rightarrow> port \<Rightarrow> bool \<Rightarrow> history
     \<Rightarrow> (vlc_tls_t option \<times> bool) \<times> history" where
  "vlc_https_connect E cr name prt two lg =
     (let prt' = (if prt = 0 then 443 else prt);
          alpn = [''h2'', ''http/1.1''];
          offered = drop (if two then 0 else 1) alpn;
          r = vlc_tls_SocketOpenTLS E lg cr name prt' ''https'' offered;
          lg' = lg @ [Ev_SocketOpenTLS cr name prt' ''https'' offered r]
      in case r of
           None \<Rightarrow> ((None, two), lg')
         | Some (tls, alp) \<Rightarrow>
             ((Some tls, (case alp of None \<Rightarrow> False | Some a \<Rightarrow> a = ''h2'')), lg'))"

text \<open>
  \<open>vlc_http_proxy_find\<close>: one of four formats, by whether the host name contains a
  colon and whether the port is non-zero; the proxy is looked up only if asprintf
  succeeded.
\<close>

definition vlc_http_proxy_find ::
  "env \<Rightarrow> string \<Rightarrow> port \<Rightarrow> bool \<Rightarrow> history \<Rightarrow> string option \<times> history" where
  "vlc_http_proxy_find E hostname prt secure lg =
     (let s = (if secure then ''s'' else '''');
          url = (if CHR '':'' \<in> set hostname
                 then (if prt \<noteq> 0
                       then ''http'' @ s @ ''://['' @ hostname @ '']:'' @ fmt_u (unat prt)
                       else ''http'' @ s @ ''://['' @ hostname @ '']'')
                 else (if prt \<noteq> 0
                       then ''http'' @ s @ ''://'' @ hostname @ '':'' @ fmt_u (unat prt)
                       else ''http'' @ s @ ''://'' @ hostname));
          ok = asprintf_ok E lg;
          lg1 = lg @ [Ev_asprintf url ok]
      in if ok
         then (let proxy = vlc_getProxyUrl E lg1 url
               in (proxy, lg1 @ [Ev_getProxyUrl url proxy]))
         else (None, lg1))"

definition vlc_https_connect_i11e ::
  "env \<Rightarrow> vlc_tls_creds_t \<Rightarrow> string \<Rightarrow> port \<Rightarrow> bool \<Rightarrow> history
     \<Rightarrow> (vlc_tls_t option \<times> bool) \<times> history" where
  "vlc_https_connect_i11e E cr host prt http_two lg =
     (case vlc_http_proxy_find E host prt True lg of
        (Some proxy, lg1) \<Rightarrow>
          (let r = vlc_https_connect_proxy E lg1 (parent cr) cr host prt http_two proxy
           in (r, lg1 @ [Ev_connect_proxy (parent cr) cr host prt http_two proxy r]))
      | (None, lg1) \<Rightarrow> vlc_https_connect E cr host prt http_two lg1)"

text \<open>\<open>vlc_http_connect_i11e\<close> returns the transport and what it stores in \<open>*proxied\<close>.\<close>

definition vlc_http_connect_i11e ::
  "env \<Rightarrow> vlc_object_t \<Rightarrow> string \<Rightarrow> port \<Rightarrow> history
     \<Rightarrow> (vlc_tls_t option \<times> bool) \<times> history" where
  "vlc_http_connect_i11e E ob host prt lg =
     (case vlc_http_proxy_find E host prt False lg of
        (Some proxy, lg1) \<Rightarrow>
          (let url = vlc_UrlParse E lg1 proxy;
               lg2 = lg1 @ [Ev_UrlParse proxy url]
           in case psz_host url of
                Some h \<Rightarrow>
                  (let prt' = (if i_port url \<noteq> 0 then i_port url else 80);
                       tls = vlc_tls_SocketOpenTCP E lg2 ob h prt';
                       lg3 = lg2 @ [Ev_SocketOpenTCP ob h prt' tls]
                   in ((tls, True), lg3 @ [Ev_UrlClean url]))
              | None \<Rightarrow> ((None, True), lg2 @ [Ev_UrlClean url]))
      | (None, lg1) \<Rightarrow>
          (let prt' = (if prt \<noteq> 0 then prt else 80);
               tls = vlc_tls_SocketOpenTCP E lg1 ob host prt'
           in ((tls, False), lg1 @ [Ev_SocketOpenTCP ob host prt' tls])))"

subsection \<open>The connection cache\<close>

definition vlc_http_mgr_find ::
  "vlc_http_mgr \<Rightarrow> string \<Rightarrow> port \<Rightarrow> vlc_http_conn option" where
  "vlc_http_mgr_find mgr host prt = conn mgr"

definition vlc_http_mgr_release ::
  "vlc_http_mgr \<Rightarrow> vlc_http_conn \<Rightarrow> history \<Rightarrow> error + (vlc_http_mgr \<times> history)" where
  "vlc_http_mgr_release mgr c lg =
     (if conn mgr = Some c
      then Inr (mgr\<lparr>conn := None\<rparr>, lg @ [Ev_conn_release c])
      else Inl Assertion_failed)"

subsection \<open>The request dispatcher\<close>

definition vlc_http_mgr_reuse ::
  "env \<Rightarrow> vlc_http_mgr \<Rightarrow> string \<Rightarrow> port \<Rightarrow> vlc_http_msg \<Rightarrow> history
     \<Rightarrow> error + (vlc_http_msg option \<times> vlc_http_mgr \<times> history)" where
  "vlc_http_mgr_reuse E mgr host prt req lg =
     (case vlc_http_mgr_find mgr host prt of
        None \<Rightarrow> Inr (None, mgr, lg)
      | Some c \<Rightarrow>
          (let stream = vlc_http_stream_open E lg c req;
               lg1 = lg @ [Ev_stream_open c req stream];
               dead = (\<lambda>l. case vlc_http_mgr_release mgr c l of
                              Inl e \<Rightarrow> Inl e
                            | Inr (mgr', l') \<Rightarrow> Inr (None, mgr', l'))
           in case stream of
                Some st \<Rightarrow>
                  (let m = vlc_http_msg_get_initial E lg1 st;
                       lg2 = lg1 @ [Ev_msg_get_initial st m]
                   in case m of
                        Some r \<Rightarrow> Inr (Some r, mgr, lg2)
                      | None \<Rightarrow> dead lg2)
              | None \<Rightarrow> dead lg1))"

text \<open>
  \<open>vlc_https_request\<close>. The local \<open>http2\<close> starts as true and is passed by reference to
  the dialer. The dialer is given \<open>mgr->creds\<close>, which is not NULL at that point: it is
  the value \<open>cr\<close> found or created at the entry, since the reuse in between does not
  write the field.
\<close>

definition vlc_https_request ::
  "env \<Rightarrow> vlc_http_mgr \<Rightarrow> string \<Rightarrow> port \<Rightarrow> vlc_http_msg \<Rightarrow> history
     \<Rightarrow> error + (vlc_http_msg option \<times> vlc_http_mgr \<times> history)" where
  "vlc_https_request E mgr host prt req lg =
     (if creds mgr = None \<and> conn mgr \<noteq> None then Inr (None, mgr, lg)
      else
        (case (case creds mgr of
                 None \<Rightarrow>
                   (let c = vlc_tls_ClientCreate E lg (obj mgr)
                    in (mgr\<lparr>creds := c\<rparr>, lg @ [Ev_ClientCreate (obj mgr) c]))
               | Some _ \<Rightarrow> (mgr, lg)) of
           (mgr1, lg1) \<Rightarrow>
             (case creds mgr1 of
                None \<Rightarrow> Inr (None, mgr1, lg1)
              | Some cr \<Rightarrow>
                  (case vlc_http_mgr_reuse E mgr1 host prt req lg1 of
                     Inl e \<Rightarrow> Inl e
                   | Inr (Some resp, mgr2, lg2) \<Rightarrow> Inr (Some resp, mgr2, lg2)
                   | Inr (None, mgr2, lg2) \<Rightarrow>
                       (case vlc_https_connect_i11e E cr host prt True lg2 of
                          ((None, http2), lg3) \<Rightarrow> Inr (None, mgr2, lg3)
                        | ((Some tls, http2), lg3) \<Rightarrow>
                            (let c = (if http2
                                      then vlc_h2_conn_create E lg3 (obj mgr2) tls
                                      else vlc_h1_conn_create E lg3 (obj mgr2) tls False);
                                 lg4 = lg3 @ [if http2
                                              then Ev_h2_conn_create (obj mgr2) tls c
                                              else Ev_h1_conn_create (obj mgr2) tls False c]
                             in case c of
                                  None \<Rightarrow> Inr (None, mgr2, lg4 @ [Ev_tls_Close tls])
                                | Some cn \<Rightarrow>
                                    vlc_http_mgr_reuse E (mgr2\<lparr>conn := Some cn\<rparr>) host prt req
                                      (lg4 @ [Ev_conn_store (conn mgr2) cn])))))))"

definition vlc_http_request ::
  "env \<Rightarrow> vlc_http_mgr \<Rightarrow> string \<Rightarrow> port \<Rightarrow> vlc_http_msg \<Rightarrow> history
     \<Rightarrow> error + (vlc_http_msg option \<times> vlc_http_mgr \<times> history)" where
  "vlc_http_request E mgr host prt req lg =
     (if creds mgr \<noteq> None \<and> conn mgr \<noteq> None then Inr (None, mgr, lg)
      else
        (case vlc_http_mgr_reuse E mgr host prt req lg of
           Inl e \<Rightarrow> Inl e
         | Inr (Some resp, mgr2, lg2) \<Rightarrow> Inr (Some resp, mgr2, lg2)
         | Inr (None, mgr2, lg2) \<Rightarrow>
             (case vlc_http_connect_i11e E (obj mgr2) host prt lg2 of
                ((None, proxy), lg3) \<Rightarrow> Inr (None, mgr2, lg3)
              | ((Some tls, proxy), lg3) \<Rightarrow>
                  (let c = (if use_h2c mgr2
                            then vlc_h2_conn_create E lg3 (obj mgr2) tls
                            else vlc_h1_conn_create E lg3 (obj mgr2) tls proxy);
                       lg4 = lg3 @ [if use_h2c mgr2
                                    then Ev_h2_conn_create (obj mgr2) tls c
                                    else Ev_h1_conn_create (obj mgr2) tls proxy c]
                   in case c of
                        None \<Rightarrow> Inr (None, mgr2, lg4 @ [Ev_tls_Close tls])
                      | Some cn \<Rightarrow>
                          vlc_http_mgr_reuse E (mgr2\<lparr>conn := Some cn\<rparr>) host prt req
                            (lg4 @ [Ev_conn_store (conn mgr2) cn])))))"

definition vlc_http_mgr_request ::
  "env \<Rightarrow> vlc_http_mgr \<Rightarrow> bool \<Rightarrow> string \<Rightarrow> port \<Rightarrow> vlc_http_msg \<Rightarrow> history
     \<Rightarrow> error + (vlc_http_msg option \<times> vlc_http_mgr \<times> history)" where
  "vlc_http_mgr_request E mgr https host prt m lg =
     (if https then vlc_https_request else vlc_http_request) E mgr host prt m lg"

subsection \<open>The manager's lifecycle\<close>

definition vlc_http_mgr_get_jar :: "vlc_http_mgr \<Rightarrow> vlc_http_cookie_jar_t option" where
  "vlc_http_mgr_get_jar mgr = jar mgr"

definition vlc_http_mgr_create ::
  "env \<Rightarrow> vlc_object_t \<Rightarrow> vlc_http_cookie_jar_t option \<Rightarrow> bool \<Rightarrow> history
     \<Rightarrow> vlc_http_mgr option \<times> history" where
  "vlc_http_mgr_create E ob j h2c lg =
     (let ok = malloc_ok E lg;
          lg' = lg @ [Ev_malloc ok]
      in if \<not> ok then (None, lg')
         else (Some \<lparr>obj = ob, creds = None, jar = j, conn = None, use_h2c = h2c\<rparr>, lg'))"

text \<open>After \<open>vlc_http_mgr_destroy\<close> the manager is freed: only the history is left.\<close>

definition vlc_http_mgr_destroy :: "vlc_http_mgr \<Rightarrow> history \<Rightarrow> error + history" where
  "vlc_http_mgr_destroy mgr lg =
     (case (case conn mgr of
              Some c \<Rightarrow> vlc_http_mgr_release mgr c lg
            | None \<Rightarrow> Inr (mgr, lg)) of
        Inl e \<Rightarrow> Inl e
      | Inr (mgr1, lg1) \<Rightarrow>
          (case creds mgr1 of
             Some cr \<Rightarrow> Inr (lg1 @ [Ev_tls_Delete cr])
           | None \<Rightarrow> Inr lg1))"

subsection \<open>A client of the manager\<close>

text \<open>
  The manager's public surface is create, request, get_jar and destroy. A lifetime is
  what a single caller does with it: create a manager, submit any list of requests
  (each with its https flag, host, port and request message), destroy it.
\<close>

type_synonym call = "bool \<times> string \<times> port \<times> vlc_http_msg"

fun mgr_requests ::
  "env \<Rightarrow> vlc_http_mgr \<Rightarrow> call list \<Rightarrow> history \<Rightarrow> error + (vlc_http_mgr \<times> history)" where
  "mgr_requests E mgr [] lg = Inr (mgr, lg)"
| "mgr_requests E mgr ((https, host, prt, req) # cs) lg =
     (case vlc_http_mgr_request E mgr https host prt req lg of
        Inl e \<Rightarrow> Inl e
      | Inr (resp, mgr', lg') \<Rightarrow> mgr_requests E mgr' cs lg')"

definition mgr_lifetime ::
  "env \<Rightarrow> vlc_object_t \<Rightarrow> vlc_http_cookie_jar_t option \<Rightarrow> bool \<Rightarrow> call list \<Rightarrow> history
     \<Rightarrow> error + history" where
  "mgr_lifetime E ob j h2c cs lg =
     (case vlc_http_mgr_create E ob j h2c lg of
        (None, lg1) \<Rightarrow> Inr lg1
      | (Some mgr, lg1) \<Rightarrow>
          (case mgr_requests E mgr cs lg1 of
             Inl e \<Rightarrow> Inl e
           | Inr (mgr', lg2) \<Rightarrow> vlc_http_mgr_destroy mgr' lg2))"

section \<open>Reading the history\<close>

subsection \<open>Kinds of events\<close>

text \<open>A dial attempt is a call that tries to open a transport.\<close>

fun is_dial :: "event \<Rightarrow> bool" where
  "is_dial (Ev_SocketOpenTLS _ _ _ _ _ _) = True"
| "is_dial (Ev_connect_proxy _ _ _ _ _ _ _) = True"
| "is_dial (Ev_SocketOpenTCP _ _ _ _) = True"
| "is_dial _ = False"

text \<open>The transport a dial attempt returned, if any.\<close>

fun dialed :: "event \<Rightarrow> vlc_tls_t option" where
  "dialed (Ev_SocketOpenTLS _ _ _ _ _ r) = map_option fst r"
| "dialed (Ev_connect_proxy _ _ _ _ _ _ r) = fst r"
| "dialed (Ev_SocketOpenTCP _ _ _ r) = r"
| "dialed _ = None"

text \<open>Proxy lookup and URL handling: the calls of a dial other than the attempt itself.\<close>

fun is_aux :: "event \<Rightarrow> bool" where
  "is_aux (Ev_asprintf _ _) = True"
| "is_aux (Ev_getProxyUrl _ _) = True"
| "is_aux (Ev_UrlParse _ _) = True"
| "is_aux (Ev_UrlClean _) = True"
| "is_aux _ = False"

fun is_stream_open :: "event \<Rightarrow> bool" where
  "is_stream_open (Ev_stream_open _ _ _) = True"
| "is_stream_open _ = False"

text \<open>A stream failed: it could not be opened, or its initial message did not arrive.\<close>

fun stream_failed :: "event \<Rightarrow> bool" where
  "stream_failed (Ev_stream_open _ _ None) = True"
| "stream_failed (Ev_msg_get_initial _ None) = True"
| "stream_failed _ = False"

fun is_store :: "event \<Rightarrow> bool" where
  "is_store (Ev_conn_store _ _) = True"
| "is_store _ = False"

text \<open>A call of a connection constructor: the transport it was given and its result.\<close>

fun constructed :: "event \<Rightarrow> (vlc_tls_t \<times> vlc_http_conn option) option" where
  "constructed (Ev_h2_conn_create _ t c) = Some (t, c)"
| "constructed (Ev_h1_conn_create _ t _ c) = Some (t, c)"
| "constructed _ = None"

definition n_dial :: "event list \<Rightarrow> nat" where
  "n_dial evs = length (filter is_dial evs)"

definition n_stream_open :: "event list \<Rightarrow> nat" where
  "n_stream_open evs = length (filter is_stream_open evs)"

text \<open>The calls of a connection constructor, in order.\<close>

definition ctor_calls :: "event list \<Rightarrow> event list" where
  "ctor_calls evs = filter (\<lambda>e. constructed e \<noteq> None) evs"

text \<open>The events that follow the installation of a connection (none if there is none).\<close>

definition after_store :: "event list \<Rightarrow> event list" where
  "after_store evs = tl (dropWhile (\<lambda>e. \<not> is_store e) evs)"

subsection \<open>Who holds what\<close>

text \<open>
  \<open>conns_ok h evs\<close> replays a history from a point where \<open>h\<close> is the connection that
  is open (constructed and not yet released), and checks every step: a constructor
  may only succeed while no connection is open; a store into the slot must find the
  slot empty and must store the connection that is open; a release must release the
  connection that is open. \<open>conns_end h evs\<close> is the connection open at the end.
\<close>

fun conns_ok :: "vlc_http_conn option \<Rightarrow> event list \<Rightarrow> bool" where
  "conns_ok h [] = True"
| "conns_ok h (Ev_h2_conn_create _ _ (Some c) # es) = (h = None \<and> conns_ok (Some c) es)"
| "conns_ok h (Ev_h1_conn_create _ _ _ (Some c) # es) = (h = None \<and> conns_ok (Some c) es)"
| "conns_ok h (Ev_conn_store old c # es) = (old = None \<and> h = Some c \<and> conns_ok h es)"
| "conns_ok h (Ev_conn_release c # es) = (h = Some c \<and> conns_ok None es)"
| "conns_ok h (_ # es) = conns_ok h es"

fun conns_end :: "vlc_http_conn option \<Rightarrow> event list \<Rightarrow> vlc_http_conn option" where
  "conns_end h [] = h"
| "conns_end h (Ev_h2_conn_create _ _ (Some c) # es) = conns_end (Some c) es"
| "conns_end h (Ev_h1_conn_create _ _ _ (Some c) # es) = conns_end (Some c) es"
| "conns_end h (Ev_conn_release c # es) = conns_end None es"
| "conns_end h (_ # es) = conns_end h es"

text \<open>Credentials: attempts to create them, successful creations, deletions.\<close>

fun creds_attempt :: "event \<Rightarrow> bool" where
  "creds_attempt (Ev_ClientCreate _ _) = True"
| "creds_attempt _ = False"

fun creds_created :: "event \<Rightarrow> bool" where
  "creds_created (Ev_ClientCreate _ (Some _)) = True"
| "creds_created _ = False"

fun creds_deleted :: "event \<Rightarrow> bool" where
  "creds_deleted (Ev_tls_Delete _) = True"
| "creds_deleted _ = False"

text \<open>A stretch of history that neither creates nor deletes credentials.\<close>

definition creds_quiet :: "event list \<Rightarrow> bool" where
  "creds_quiet xs = (\<forall>e\<in>set xs. \<not> creds_attempt e \<and> \<not> creds_deleted e)"

subsection \<open>The traces of the dispatcher\<close>

text \<open>
  The events one call of \<open>vlc_http_mgr_reuse\<close> can add, with its result and the
  manager it leaves.
\<close>

inductive reuse_tr ::
  "vlc_http_mgr \<Rightarrow> vlc_http_msg \<Rightarrow> event list \<Rightarrow> vlc_http_msg option \<Rightarrow> vlc_http_mgr \<Rightarrow> bool"
where
  slot_empty: "conn mgr = None \<Longrightarrow> reuse_tr mgr req [] None mgr"
| open_failed: "conn mgr = Some c \<Longrightarrow>
    reuse_tr mgr req [Ev_stream_open c req None, Ev_conn_release c] None (mgr\<lparr>conn := None\<rparr>)"
| fetch_failed: "conn mgr = Some c \<Longrightarrow>
    reuse_tr mgr req [Ev_stream_open c req (Some st), Ev_msg_get_initial st None,
                      Ev_conn_release c] None (mgr\<lparr>conn := None\<rparr>)"
| answered: "conn mgr = Some c \<Longrightarrow>
    reuse_tr mgr req [Ev_stream_open c req (Some st), Ev_msg_get_initial st (Some m)]
      (Some m) mgr"

text \<open>The events of a dial: lookups and at most one attempt, whose result is returned.\<close>

definition dial_tr :: "event list \<Rightarrow> vlc_tls_t option \<Rightarrow> bool" where
  "dial_tr ds t = (list_all (\<lambda>e. is_aux e \<or> is_dial e) ds \<and>
     (filter is_dial ds = [] \<and> t = None \<or> (\<exists>d. filter is_dial ds = [d] \<and> dialed d = t)))"

text \<open>
  What a TLS handshake made by a dial with HTTP/2 permitted looks like: both protocols
  offered, "h2" first, and the flag written back says whether "h2" was negotiated.
\<close>

definition alpn_rel :: "event list \<Rightarrow> bool \<Rightarrow> bool" where
  "alpn_rel ds f = (\<forall>e\<in>set ds. case e of
       Ev_SocketOpenTLS cr n p s off r \<Rightarrow>
         off = [''h2'', ''http/1.1''] \<and>
         (case r of None \<Rightarrow> True | Some (t, alp) \<Rightarrow> f = (alp = Some ''h2''))
     | _ \<Rightarrow> True)"

definition dial_rel :: "bool \<Rightarrow> event list \<Rightarrow> vlc_tls_t option \<Rightarrow> bool \<Rightarrow> bool" where
  "dial_rel https ds t f = (dial_tr ds t \<and> (https \<longrightarrow> alpn_rel ds f))"

text \<open>The constructor call that follows a dial that returned transport \<open>t\<close> and flag \<open>f\<close>.\<close>

definition ctor_ev ::
  "bool \<Rightarrow> vlc_http_mgr \<Rightarrow> vlc_tls_t \<Rightarrow> bool \<Rightarrow> vlc_http_conn option \<Rightarrow> event" where
  "ctor_ev https m t f c =
     (if https
      then (if f then Ev_h2_conn_create (obj m) t c else Ev_h1_conn_create (obj m) t False c)
      else (if use_h2c m then Ev_h2_conn_create (obj m) t c
            else Ev_h1_conn_create (obj m) t f c))"

inductive entry_tr :: "bool \<Rightarrow> vlc_http_mgr \<Rightarrow> event list \<Rightarrow> vlc_http_mgr \<Rightarrow> bool" where
  have_creds: "creds mgr = Some cr \<Longrightarrow> entry_tr True mgr [] mgr"
| new_creds: "creds mgr = None \<Longrightarrow> conn mgr = None \<Longrightarrow>
    entry_tr True mgr [Ev_ClientCreate (obj mgr) (Some cr)] (mgr\<lparr>creds := Some cr\<rparr>)"
| plain: "creds mgr = None \<or> conn mgr = None \<Longrightarrow> entry_tr False mgr [] mgr"

text \<open>The events one request can add, with its result and the manager it leaves.\<close>

inductive request_tr ::
  "bool \<Rightarrow> vlc_http_mgr \<Rightarrow> vlc_http_msg \<Rightarrow> event list \<Rightarrow> vlc_http_msg option
     \<Rightarrow> vlc_http_mgr \<Rightarrow> bool"
where
  mix_https: "creds mgr = None \<Longrightarrow> conn mgr \<noteq> None \<Longrightarrow> request_tr True mgr req [] None mgr"
| mix_http: "creds mgr \<noteq> None \<Longrightarrow> conn mgr \<noteq> None \<Longrightarrow> request_tr False mgr req [] None mgr"
| no_creds: "creds mgr = None \<Longrightarrow> conn mgr = None \<Longrightarrow>
    request_tr True mgr req [Ev_ClientCreate (obj mgr) None] None mgr"
| reused: "entry_tr https mgr pre mgr1 \<Longrightarrow> reuse_tr mgr1 req r1 (Some m) mgr2 \<Longrightarrow>
    request_tr https mgr req (pre @ r1) (Some m) mgr2"
| dial_failed: "entry_tr https mgr pre mgr1 \<Longrightarrow> reuse_tr mgr1 req r1 None mgr2 \<Longrightarrow>
    dial_rel https ds None f \<Longrightarrow> request_tr https mgr req (pre @ r1 @ ds) None mgr2"
| ctor_failed: "entry_tr https mgr pre mgr1 \<Longrightarrow> reuse_tr mgr1 req r1 None mgr2 \<Longrightarrow>
    dial_rel https ds (Some t) f \<Longrightarrow>
    request_tr https mgr req (pre @ r1 @ ds @ [ctor_ev https mgr2 t f None, Ev_tls_Close t])
      None mgr2"
| installed: "entry_tr https mgr pre mgr1 \<Longrightarrow> reuse_tr mgr1 req r1 None mgr2 \<Longrightarrow>
    dial_rel https ds (Some t) f \<Longrightarrow>
    reuse_tr (mgr2\<lparr>conn := Some cn\<rparr>) req r2 res mgr3 \<Longrightarrow>
    request_tr https mgr req
      (pre @ r1 @ ds @ [ctor_ev https mgr2 t f (Some cn), Ev_conn_store (conn mgr2) cn] @ r2)
      res mgr3"

inductive requests_tr :: "vlc_http_mgr \<Rightarrow> event list \<Rightarrow> vlc_http_mgr \<Rightarrow> bool" where
  none: "requests_tr mgr [] mgr"
| more: "request_tr https mgr req evs res mgr1 \<Longrightarrow> requests_tr mgr1 evs' mgr2 \<Longrightarrow>
    requests_tr mgr (evs @ evs') mgr2"

text \<open>
  The part the two request functions share, after their entry checks: reuse, dial,
  construct, install, reuse again. The dialer and the choice of constructor are
  parameters.
\<close>

definition dispatch ::
  "env \<Rightarrow> (vlc_http_mgr \<Rightarrow> history \<Rightarrow> (vlc_tls_t option \<times> bool) \<times> history)
     \<Rightarrow> (vlc_http_mgr \<Rightarrow> bool \<Rightarrow> bool) \<Rightarrow> (bool \<Rightarrow> bool)
     \<Rightarrow> vlc_http_mgr \<Rightarrow> string \<Rightarrow> port \<Rightarrow> vlc_http_msg \<Rightarrow> history
     \<Rightarrow> error + (vlc_http_msg option \<times> vlc_http_mgr \<times> history)" where
  "dispatch E dial use_h2 proxied mgr1 host prt req lg1 =
     (case vlc_http_mgr_reuse E mgr1 host prt req lg1 of
        Inl e \<Rightarrow> Inl e
      | Inr (Some resp, mgr2, lg2) \<Rightarrow> Inr (Some resp, mgr2, lg2)
      | Inr (None, mgr2, lg2) \<Rightarrow>
          (case dial mgr2 lg2 of
             ((None, f), lg3) \<Rightarrow> Inr (None, mgr2, lg3)
           | ((Some tls, f), lg3) \<Rightarrow>
               (let c = (if use_h2 mgr2 f
                         then vlc_h2_conn_create E lg3 (obj mgr2) tls
                         else vlc_h1_conn_create E lg3 (obj mgr2) tls (proxied f));
                    k = (if use_h2 mgr2 f
                         then Ev_h2_conn_create (obj mgr2) tls c
                         else Ev_h1_conn_create (obj mgr2) tls (proxied f) c)
                in case c of
                     None \<Rightarrow> Inr (None, mgr2, lg3 @ [k, Ev_tls_Close tls])
                   | Some cn \<Rightarrow>
                       vlc_http_mgr_reuse E (mgr2\<lparr>conn := Some cn\<rparr>) host prt req
                         (lg3 @ [k, Ev_conn_store (conn mgr2) cn]))))"

section \<open>Concrete collaborators\<close>

text \<open>
  A collaborator set in which everything succeeds and no proxy is configured, and
  variants of it in which one collaborator fails. They are used to run the manager on
  concrete inputs.
\<close>

definition env_ok :: env where
  "env_ok = \<lparr>
     asprintf_ok = (\<lambda>_. True),
     vlc_getProxyUrl = (\<lambda>_ _. None),
     vlc_tls_SocketOpenTLS = (\<lambda>_ _ _ _ _ _. Some (7, Some ''h2'')),
     vlc_https_connect_proxy = (\<lambda>_ _ _ _ _ _ _. (Some 8, True)),
     vlc_UrlParse = (\<lambda>_ _. \<lparr>psz_host = Some ''proxy.test'', i_port = 0\<rparr>),
     vlc_tls_SocketOpenTCP = (\<lambda>_ _ _ _. Some 9),
     vlc_tls_ClientCreate = (\<lambda>_ ob. Some \<lparr>addr = 5, parent = ob\<rparr>),
     vlc_h2_conn_create = (\<lambda>_ _ _. Some 11),
     vlc_h1_conn_create = (\<lambda>_ _ _ _. Some 12),
     vlc_http_stream_open = (\<lambda>_ _ _. Some 21),
     vlc_http_msg_get_initial = (\<lambda>_ _. Some 31),
     malloc_ok = (\<lambda>_. True) \<rparr>"

definition env_dead :: env where
  "env_dead = env_ok\<lparr>vlc_http_stream_open := (\<lambda>_ _ _. None)\<rparr>"

definition env_silent :: env where
  "env_silent = env_ok\<lparr>vlc_http_msg_get_initial := (\<lambda>_ _. None)\<rparr>"

definition mgr0 :: vlc_http_mgr where
  "mgr0 = \<lparr>obj = 1, creds = None, jar = None, conn = None, use_h2c = False\<rparr>"

definition env_noconn :: env where
  "env_noconn = env_ok\<lparr>vlc_h2_conn_create := (\<lambda>_ _ _. None),
     vlc_h1_conn_create := (\<lambda>_ _ _ _. None)\<rparr>"

text \<open>A proxy is configured; the server negotiates "http/1.1".\<close>

definition env_proxy :: env where
  "env_proxy = env_ok\<lparr>vlc_getProxyUrl := (\<lambda>_ _. Some ''http://proxy.test'')\<rparr>"

definition env_proxy_port :: env where
  "env_proxy_port = env_ok\<lparr>
     vlc_getProxyUrl := (\<lambda>_ _. Some ''http://proxy.test:3128''),
     vlc_UrlParse := (\<lambda>_ _. \<lparr>psz_host = Some ''proxy.test'', i_port = 3128\<rparr>)\<rparr>"

definition env_proxy_nohost :: env where
  "env_proxy_nohost = env_proxy\<lparr>vlc_UrlParse := (\<lambda>_ _. \<lparr>psz_host = None, i_port = 0\<rparr>)\<rparr>"

definition env_h1 :: env where
  "env_h1 = env_ok\<lparr>vlc_tls_SocketOpenTLS := (\<lambda>_ _ _ _ _ _. Some (7, Some ''http/1.1''))\<rparr>"

definition env_nocreds :: env where
  "env_nocreds = env_ok\<lparr>vlc_tls_ClientCreate := (\<lambda>_ _. None)\<rparr>"

text \<open>The first attempt to create credentials fails, later ones succeed.\<close>

definition env_late_creds :: env where
  "env_late_creds = env_ok\<lparr>vlc_tls_ClientCreate :=
     (\<lambda>h ob. if filter creds_attempt h = [] then None else Some \<lparr>addr = 5, parent = ob\<rparr>)\<rparr>"

text \<open>Managers that already hold a connection: one over TLS, one over plain TCP.\<close>

definition mgr_tls :: vlc_http_mgr where
  "mgr_tls = \<lparr>obj = 1, creds = Some \<lparr>addr = 5, parent = 1\<rparr>, jar = None, conn = Some 10,
     use_h2c = False\<rparr>"

definition mgr_plain :: vlc_http_mgr where
  "mgr_plain = \<lparr>obj = 1, creds = None, jar = None, conn = Some 10, use_h2c = False\<rparr>"

text \<open>
  Two histories. In the first an HTTPS request finds a stale cached connection, dials
  again, and the stream on the fresh connection fails too. The second is a whole
  lifetime: two HTTPS requests answered over one HTTP/2 connection, then the destroy.
\<close>

definition retry_trace :: "event list" where
  "retry_trace =
     [Ev_stream_open 10 1 None, Ev_conn_release 10,
      Ev_asprintf ''https://example.test'' True,
      Ev_getProxyUrl ''https://example.test'' None,
      Ev_SocketOpenTLS \<lparr>addr = 5, parent = 1\<rparr> ''example.test'' 443 ''https''
        [''h2'', ''http/1.1''] (Some (7, Some ''h2'')),
      Ev_h2_conn_create 1 7 (Some 11), Ev_conn_store None 11,
      Ev_stream_open 11 1 None, Ev_conn_release 11]"

definition lifetime_trace :: "event list" where
  "lifetime_trace =
     [Ev_malloc True, Ev_ClientCreate 1 (Some \<lparr>addr = 5, parent = 1\<rparr>),
      Ev_asprintf ''https://example.test'' True,
      Ev_getProxyUrl ''https://example.test'' None,
      Ev_SocketOpenTLS \<lparr>addr = 5, parent = 1\<rparr> ''example.test'' 443 ''https''
        [''h2'', ''http/1.1''] (Some (7, Some ''h2'')),
      Ev_h2_conn_create 1 7 (Some 11), Ev_conn_store None 11,
      Ev_stream_open 11 1 (Some 21), Ev_msg_get_initial 21 (Some 31),
      Ev_stream_open 11 2 (Some 21), Ev_msg_get_initial 21 (Some 31),
      Ev_conn_release 11, Ev_tls_Delete \<lparr>addr = 5, parent = 1\<rparr>]"

text \<open>
  Two more lifetimes. In the first a plaintext request is answered and an HTTPS request
  follows. In the second the credentials cannot be created in the first HTTPS request
  and are created in the second.
\<close>

definition plain_first_trace :: "event list" where
  "plain_first_trace =
     [Ev_malloc True, Ev_asprintf ''http://example.test'' True,
      Ev_getProxyUrl ''http://example.test'' None,
      Ev_SocketOpenTCP 1 ''example.test'' 80 (Some 9),
      Ev_h1_conn_create 1 9 False (Some 12), Ev_conn_store None 12,
      Ev_stream_open 12 1 (Some 21), Ev_msg_get_initial 21 (Some 31),
      Ev_conn_release 12]"

definition late_creds_trace :: "event list" where
  "late_creds_trace =
     [Ev_malloc True, Ev_ClientCreate 1 None,
      Ev_ClientCreate 1 (Some \<lparr>addr = 5, parent = 1\<rparr>),
      Ev_asprintf ''https://example.test'' True,
      Ev_getProxyUrl ''https://example.test'' None,
      Ev_SocketOpenTLS \<lparr>addr = 5, parent = 1\<rparr> ''example.test'' 443 ''https''
        [''h2'', ''http/1.1''] (Some (7, Some ''h2'')),
      Ev_h2_conn_create 1 7 (Some 11), Ev_conn_store None 11,
      Ev_stream_open 11 2 (Some 21), Ev_msg_get_initial 21 (Some 31),
      Ev_conn_release 11, Ev_tls_Delete \<lparr>addr = 5, parent = 1\<rparr>]"

section \<open>Properties\<close>

subsection \<open>The code produces these traces\<close>

lemma creds_update_same: "creds mgr = c \<Longrightarrow> mgr\<lparr>creds := c\<rparr> = mgr"
  by auto

lemma conn_update_same: "conn mgr = c \<Longrightarrow> mgr\<lparr>conn := c\<rparr> = mgr"
  by auto

lemma reuse_eq:
  "vlc_http_mgr_reuse E mgr host prt req lg =
     (case conn mgr of
        None \<Rightarrow> Inr (None, mgr, lg)
      | Some c \<Rightarrow>
          (case vlc_http_stream_open E lg c req of
             None \<Rightarrow> Inr (None, mgr\<lparr>conn := None\<rparr>,
                          lg @ [Ev_stream_open c req None, Ev_conn_release c])
           | Some st \<Rightarrow>
               (case vlc_http_msg_get_initial E (lg @ [Ev_stream_open c req (Some st)]) st of
                  None \<Rightarrow> Inr (None, mgr\<lparr>conn := None\<rparr>,
                               lg @ [Ev_stream_open c req (Some st), Ev_msg_get_initial st None,
                                     Ev_conn_release c])
                | Some m \<Rightarrow> Inr (Some m, mgr,
                               lg @ [Ev_stream_open c req (Some st),
                                     Ev_msg_get_initial st (Some m)]))))"
  by (simp add: vlc_http_mgr_reuse_def vlc_http_mgr_find_def vlc_http_mgr_release_def
      Let_def split: option.splits)

lemma reuse_shape:
  "\<exists>res mgr' evs. vlc_http_mgr_reuse E mgr host prt req lg = Inr (res, mgr', lg @ evs) \<and>
     reuse_tr mgr req evs res mgr'"
  by (auto simp: reuse_eq split: option.splits intro: reuse_tr.intros)

lemma proxy_find_shape:
  "\<exists>px evs. vlc_http_proxy_find E h p s lg = (px, lg @ evs) \<and> list_all is_aux evs"
  by (simp add: vlc_http_proxy_find_def Let_def)

lemma aux_kind: "is_aux e \<Longrightarrow> \<not> is_dial e"
  by (cases e) simp_all

lemma aux_not_dial: "list_all is_aux evs \<Longrightarrow> filter is_dial evs = []"
  using aux_kind by (auto simp: filter_empty_conv list_all_iff)

lemma aux_alpn_rel: "list_all is_aux evs \<Longrightarrow> alpn_rel evs f"
proof -
  have "is_aux e \<Longrightarrow> (case e of
       Ev_SocketOpenTLS cr n p s off r \<Rightarrow>
         off = [''h2'', ''http/1.1''] \<and>
         (case r of None \<Rightarrow> True | Some (t, alp) \<Rightarrow> f = (alp = Some ''h2''))
     | _ \<Rightarrow> True)" for e
    by (cases e) simp_all
  then show "list_all is_aux evs \<Longrightarrow> alpn_rel evs f"
    by (simp add: alpn_rel_def list_all_iff)
qed

lemma alpn_rel_append: "alpn_rel (xs @ ys) f = (alpn_rel xs f \<and> alpn_rel ys f)"
  by (auto simp: alpn_rel_def)

lemma https_connect_shape:
  "\<exists>t f d. vlc_https_connect E cr h p True lg = ((t, f), lg @ [d]) \<and>
     is_dial d \<and> dialed d = t \<and> alpn_rel [d] f"
  by (auto simp: vlc_https_connect_def Let_def alpn_rel_def split: option.splits)

lemma https_dial_shape:
  "\<exists>t f ds. vlc_https_connect_i11e E cr h p True lg = ((t, f), lg @ ds) \<and> dial_rel True ds t f"
proof -
  obtain px evs where pf: "vlc_http_proxy_find E h p True lg = (px, lg @ evs)"
    and aux: "list_all is_aux evs"
    using proxy_find_shape by blast
  note na = aux_not_dial [OF aux]
  have la: "list_all (\<lambda>e. is_aux e \<or> is_dial e) evs" using aux by (simp add: list_all_iff)
  show ?thesis
  proof (cases px)
    case None
    obtain t f d where
      "vlc_https_connect E cr h p True (lg @ evs) = ((t, f), (lg @ evs) @ [d])"
      and "is_dial d" "dialed d = t" "alpn_rel [d] f"
      using https_connect_shape by blast
    with None pf na la aux_alpn_rel [OF aux, of f] show ?thesis
      by (auto simp: vlc_https_connect_i11e_def dial_tr_def dial_rel_def alpn_rel_append)
  next
    case (Some proxy)
    obtain t f where r: "vlc_https_connect_proxy E (lg @ evs) (parent cr) cr h p True proxy = (t, f)"
      by (cases "vlc_https_connect_proxy E (lg @ evs) (parent cr) cr h p True proxy") auto
    have "alpn_rel [Ev_connect_proxy (parent cr) cr h p True proxy (t, f)] f"
      by (simp add: alpn_rel_def)
    with Some pf na la r aux_alpn_rel [OF aux, of f] show ?thesis
      by (auto simp: vlc_https_connect_i11e_def dial_tr_def dial_rel_def Let_def
          alpn_rel_append)
  qed
qed

lemma http_dial_shape:
  "\<exists>t f ds. vlc_http_connect_i11e E ob h p lg = ((t, f), lg @ ds) \<and> dial_rel False ds t f"
proof -
  obtain px evs where pf: "vlc_http_proxy_find E h p False lg = (px, lg @ evs)"
    and aux: "list_all is_aux evs"
    using proxy_find_shape by blast
  note na = aux_not_dial [OF aux]
  have la: "list_all (\<lambda>e. is_aux e \<or> is_dial e) evs" using aux by (simp add: list_all_iff)
  from pf na la show ?thesis
    by (auto simp: vlc_http_connect_i11e_def dial_tr_def dial_rel_def Let_def
        split: option.splits)
qed

lemma https_request_dispatch:
  "vlc_https_request E mgr host prt req lg =
     (if creds mgr = None \<and> conn mgr \<noteq> None then Inr (None, mgr, lg)
      else case creds mgr of
             Some cr \<Rightarrow>
               dispatch E (\<lambda>m l. vlc_https_connect_i11e E cr host prt True l) (\<lambda>m f. f)
                 (\<lambda>f. False) mgr host prt req lg
           | None \<Rightarrow>
               (case vlc_tls_ClientCreate E lg (obj mgr) of
                  None \<Rightarrow> Inr (None, mgr, lg @ [Ev_ClientCreate (obj mgr) None])
                | Some cr \<Rightarrow>
                    dispatch E (\<lambda>m l. vlc_https_connect_i11e E cr host prt True l) (\<lambda>m f. f)
                      (\<lambda>f. False) (mgr\<lparr>creds := Some cr\<rparr>) host prt req
                      (lg @ [Ev_ClientCreate (obj mgr) (Some cr)])))"
  by (simp add: vlc_https_request_def dispatch_def Let_def creds_update_same
      split: option.splits sum.splits prod.splits)

lemma http_request_dispatch:
  "vlc_http_request E mgr host prt req lg =
     (if creds mgr \<noteq> None \<and> conn mgr \<noteq> None then Inr (None, mgr, lg)
      else dispatch E (\<lambda>m l. vlc_http_connect_i11e E (obj m) host prt l) (\<lambda>m f. use_h2c m)
             (\<lambda>f. f) mgr host prt req lg)"
  by (simp add: vlc_http_request_def dispatch_def Let_def
      split: option.splits sum.splits prod.splits)

lemma dispatch_shape:
  assumes entry: "entry_tr https mgr pre mgr1"
    and dial: "\<And>m l. \<exists>t f ds. dial m l = ((t, f), l @ ds) \<and> dial_rel https ds t f"
    and ctor: "\<And>m f t c. (if use_h2 m f then Ev_h2_conn_create (obj m) t c
                else Ev_h1_conn_create (obj m) t (proxied f) c) = ctor_ev https m t f c"
  shows "\<exists>res mgr' evs.
           dispatch E dial use_h2 proxied mgr1 host prt req (lg @ pre) = Inr (res, mgr', lg @ evs)
           \<and> request_tr https mgr req evs res mgr'"
proof -
  obtain res1 mgr2 r1 where
    r1: "vlc_http_mgr_reuse E mgr1 host prt req (lg @ pre) = Inr (res1, mgr2, (lg @ pre) @ r1)"
    and t1: "reuse_tr mgr1 req r1 res1 mgr2"
    using reuse_shape by blast
  show ?thesis
  proof (cases res1)
    case (Some m)
    with r1 t1 show ?thesis
      using request_tr.reused [OF entry, of req r1 m mgr2] by (simp add: dispatch_def)
  next
    case None
    note res1 = this
    obtain t f ds where
      d: "dial mgr2 ((lg @ pre) @ r1) = ((t, f), ((lg @ pre) @ r1) @ ds)"
      and dt: "dial_rel https ds t f"
      using dial by blast
    show ?thesis
    proof (cases t)
      case None
      with res1 r1 t1 d dt show ?thesis
        using request_tr.dial_failed [OF entry, of req r1 mgr2 ds f] by (simp add: dispatch_def)
    next
      case (Some tls)
      note t = this
      define c where "c = (if use_h2 mgr2 f
                then vlc_h2_conn_create E (((lg @ pre) @ r1) @ ds) (obj mgr2) tls
                else vlc_h1_conn_create E (((lg @ pre) @ r1) @ ds) (obj mgr2) tls (proxied f))"
      have unf: "dispatch E dial use_h2 proxied mgr1 host prt req (lg @ pre) =
          (case c of
             None \<Rightarrow> Inr (None, mgr2,
                          lg @ pre @ r1 @ ds @ [ctor_ev https mgr2 tls f c, Ev_tls_Close tls])
           | Some cn \<Rightarrow>
               vlc_http_mgr_reuse E (mgr2\<lparr>conn := Some cn\<rparr>) host prt req
                 (lg @ pre @ r1 @ ds @
                    [ctor_ev https mgr2 tls f c, Ev_conn_store (conn mgr2) cn]))"
        using res1 t r1 d
        by (simp add: dispatch_def Let_def c_def ctor [symmetric] split: option.splits)
      show ?thesis
      proof (cases c)
        case None
        with unf dt t show ?thesis
          using request_tr.ctor_failed [OF entry t1 [unfolded res1], of ds tls f] by simp
      next
        case (Some cn)
        obtain res mgr3 r2 where
          r2: "vlc_http_mgr_reuse E (mgr2\<lparr>conn := Some cn\<rparr>) host prt req
                 (lg @ pre @ r1 @ ds @
                    [ctor_ev https mgr2 tls f (Some cn), Ev_conn_store (conn mgr2) cn])
               = Inr (res, mgr3,
                   (lg @ pre @ r1 @ ds @
                      [ctor_ev https mgr2 tls f (Some cn), Ev_conn_store (conn mgr2) cn]) @ r2)"
          and t2: "reuse_tr (mgr2\<lparr>conn := Some cn\<rparr>) req r2 res mgr3"
          using reuse_shape by blast
        from Some unf dt t r2 t2 show ?thesis
          using request_tr.installed [OF entry t1 [unfolded res1], of ds tls f cn r2 res mgr3]
          by simp
      qed
    qed
  qed
qed

lemma request_shape:
  "\<exists>res mgr' evs. vlc_http_mgr_request E mgr https host prt req lg = Inr (res, mgr', lg @ evs)
     \<and> request_tr https mgr req evs res mgr'"
proof (cases https)
  case False
  show ?thesis
  proof (cases "creds mgr \<noteq> None \<and> conn mgr \<noteq> None")
    case True
    then show ?thesis
      using False request_tr.mix_http [of mgr req]
      by (simp add: vlc_http_mgr_request_def http_request_dispatch)
  next
    case nomix: False
    then have entry: "entry_tr False mgr [] mgr" by (auto intro: entry_tr.plain)
    have eq: "vlc_http_mgr_request E mgr False host prt req lg =
        dispatch E (\<lambda>m l. vlc_http_connect_i11e E (obj m) host prt l) (\<lambda>m f. use_h2c m)
             (\<lambda>f. f) mgr host prt req lg"
      using nomix by (auto simp: vlc_http_mgr_request_def http_request_dispatch)
    show ?thesis
      using dispatch_shape [OF entry, of "\<lambda>m l. vlc_http_connect_i11e E (obj m) host prt l"
          "\<lambda>m f. use_h2c m" "\<lambda>f. f" E host prt req lg] False http_dial_shape
      by (simp add: eq ctor_ev_def)
  qed
next
  case True
  consider (mix) "creds mgr = None" "conn mgr \<noteq> None"
    | (nocreds) "creds mgr = None" "conn mgr = None" "vlc_tls_ClientCreate E lg (obj mgr) = None"
    | (newcreds) cr where "creds mgr = None" "conn mgr = None"
        "vlc_tls_ClientCreate E lg (obj mgr) = Some cr"
    | (oldcreds) cr where "creds mgr = Some cr"
    by (cases "creds mgr"; cases "conn mgr"; cases "vlc_tls_ClientCreate E lg (obj mgr)") auto
  then show ?thesis
  proof cases
    case mix
    then show ?thesis
      using True request_tr.mix_https [of mgr req]
      by (simp add: vlc_http_mgr_request_def https_request_dispatch)
  next
    case nocreds
    then show ?thesis
      using True request_tr.no_creds [of mgr req]
      by (simp add: vlc_http_mgr_request_def https_request_dispatch)
  next
    case newcreds
    then have entry: "entry_tr True mgr [Ev_ClientCreate (obj mgr) (Some cr)]
                        (mgr\<lparr>creds := Some cr\<rparr>)"
      by (auto intro: entry_tr.new_creds)
    show ?thesis
      using dispatch_shape [OF entry, of "\<lambda>m l. vlc_https_connect_i11e E cr host prt True l"
          "\<lambda>m f. f" "\<lambda>f. False" E host prt req lg] newcreds True https_dial_shape
      by (simp add: vlc_http_mgr_request_def https_request_dispatch ctor_ev_def)
  next
    case oldcreds
    then have entry: "entry_tr True mgr [] mgr"
      by (auto intro: entry_tr.have_creds)
    show ?thesis
      using dispatch_shape [OF entry, of "\<lambda>m l. vlc_https_connect_i11e E cr host prt True l"
          "\<lambda>m f. f" "\<lambda>f. False" E host prt req lg] oldcreds True https_dial_shape
      by (simp add: vlc_http_mgr_request_def https_request_dispatch ctor_ev_def)
  qed
qed

lemma requests_shape:
  "\<exists>mgr' evs. mgr_requests E mgr cs lg = Inr (mgr', lg @ evs) \<and> requests_tr mgr evs mgr'"
proof (induction cs arbitrary: mgr lg)
  case Nil
  show ?case using requests_tr.none [of mgr] by simp
next
  case (Cons c cs)
  obtain https host prt req where c: "c = (https, host, prt, req)" by (cases c) auto
  obtain res mgr1 evs where
    r: "vlc_http_mgr_request E mgr https host prt req lg = Inr (res, mgr1, lg @ evs)"
    and t: "request_tr https mgr req evs res mgr1"
    using request_shape by blast
  obtain mgr2 evs' where
    rs: "mgr_requests E mgr1 cs (lg @ evs) = Inr (mgr2, (lg @ evs) @ evs')"
    and ts: "requests_tr mgr1 evs' mgr2"
    using Cons.IH by blast
  show ?case
    using c r rs requests_tr.more [OF t ts] by auto
qed

subsection \<open>Counting attempts\<close>

lemma n_dial_append: "n_dial (xs @ ys) = n_dial xs + n_dial ys"
  by (simp add: n_dial_def)

lemma n_stream_open_append: "n_stream_open (xs @ ys) = n_stream_open xs + n_stream_open ys"
  by (simp add: n_stream_open_def)

lemma after_store_skip:
  assumes "\<forall>e\<in>set xs. \<not> is_store e"
  shows "after_store (xs @ ys) = after_store ys"
proof -
  have "dropWhile (\<lambda>e. \<not> is_store e) (xs @ ys) = dropWhile (\<lambda>e. \<not> is_store e) ys"
    using assms by (intro dropWhile_append2) simp
  then show ?thesis by (simp only: after_store_def)
qed

lemma after_store_none:
  assumes "\<forall>e\<in>set xs. \<not> is_store e"
  shows "after_store xs = []"
proof -
  have "dropWhile (\<lambda>e. \<not> is_store e) xs = []"
    using assms by (simp only: dropWhile_eq_Nil_conv)
  then show ?thesis by (simp only: after_store_def list.sel)
qed

lemma after_store_here: "after_store (Ev_conn_store old c # ys) = ys"
  by (simp add: after_store_def)

lemma dial_rel_events: "dial_rel https ds t f \<Longrightarrow> \<forall>e\<in>set ds. is_aux e \<or> is_dial e"
  by (simp add: dial_rel_def dial_tr_def list_all_iff)

lemma dial_rel_n_dial: "dial_rel https ds t f \<Longrightarrow> n_dial ds \<le> 1"
  by (auto simp: dial_rel_def dial_tr_def n_dial_def)

lemma dial_event_kind:
  "is_aux e \<or> is_dial e \<Longrightarrow> \<not> is_stream_open e \<and> \<not> is_store e \<and> \<not> stream_failed e"
  by (cases e) simp_all

lemma dial_rel_n_stream_open: "dial_rel https ds t f \<Longrightarrow> n_stream_open ds = 0"
  using dial_rel_events [of https ds t f] dial_event_kind
  by (auto simp: n_stream_open_def filter_empty_conv)

lemma dial_rel_no_store: "dial_rel https ds t f \<Longrightarrow> \<forall>e\<in>set ds. \<not> is_store e"
  using dial_rel_events [of https ds t f] dial_event_kind by blast

lemma ctor_ev_kind [simp]:
  "\<not> is_dial (ctor_ev https m t f c)" "\<not> is_stream_open (ctor_ev https m t f c)"
  "\<not> is_store (ctor_ev https m t f c)" "\<not> stream_failed (ctor_ev https m t f c)"
  "\<not> is_aux (ctor_ev https m t f c)"
  "constructed (ctor_ev https m t f c) = Some (t, c)"
  by (simp_all add: ctor_ev_def)

lemma reuse_tr_bounds:
  "reuse_tr mgr req evs res mgr' \<Longrightarrow>
     n_dial evs = 0 \<and> n_stream_open evs \<le> 1 \<and> (\<forall>e\<in>set evs. \<not> is_store e) \<and>
     ((\<exists>e\<in>set evs. stream_failed e) \<longrightarrow> res = None)"
  by (erule reuse_tr.cases) (simp_all add: n_dial_def n_stream_open_def)

lemma entry_tr_bounds:
  "entry_tr https mgr pre mgr1 \<Longrightarrow>
     n_dial pre = 0 \<and> n_stream_open pre = 0 \<and> (\<forall>e\<in>set pre. \<not> is_store e)"
  by (erule entry_tr.cases) (simp_all add: n_dial_def n_stream_open_def)

lemma request_tr_bounds:
  assumes "request_tr https mgr req evs res mgr'"
  shows "n_dial evs \<le> 1 \<and> n_stream_open evs \<le> 2 \<and>
         n_dial (after_store evs) = 0 \<and> n_stream_open (after_store evs) \<le> 1 \<and>
         ((\<exists>e\<in>set (after_store evs). stream_failed e) \<longrightarrow> res = None)"
  using assms
proof cases
  case mix_https
  then show ?thesis by (simp add: n_dial_def n_stream_open_def after_store_def)
next
  case mix_http
  then show ?thesis by (simp add: n_dial_def n_stream_open_def after_store_def)
next
  case no_creds
  then show ?thesis by (simp add: n_dial_def n_stream_open_def after_store_def)
next
  case (reused pre mgr1 r1 m)
  note e = entry_tr_bounds [OF reused(3)] and r = reuse_tr_bounds [OF reused(4)]
  have "after_store (pre @ r1) = []" using e r by (intro after_store_none) auto
  with reused e r show ?thesis
    by (simp add: n_dial_append n_stream_open_append n_dial_def n_stream_open_def)
next
  case (dial_failed pre mgr1 r1 ds f)
  note e = entry_tr_bounds [OF dial_failed(3)] and r = reuse_tr_bounds [OF dial_failed(4)]
    and d = dial_rel_n_dial [OF dial_failed(5)] dial_rel_n_stream_open [OF dial_failed(5)]
      dial_rel_no_store [OF dial_failed(5)]
  have "after_store (pre @ r1 @ ds) = []" using e r d by (intro after_store_none) auto
  with dial_failed e r d show ?thesis
    by (simp add: n_dial_append n_stream_open_append n_dial_def n_stream_open_def)
next
  case (ctor_failed pre mgr1 r1 ds t f)
  note e = entry_tr_bounds [OF ctor_failed(3)] and r = reuse_tr_bounds [OF ctor_failed(4)]
    and d = dial_rel_n_dial [OF ctor_failed(5)] dial_rel_n_stream_open [OF ctor_failed(5)]
      dial_rel_no_store [OF ctor_failed(5)]
  have "after_store (pre @ r1 @ ds @ [ctor_ev https mgr' t f None, Ev_tls_Close t]) = []"
    using e r d by (intro after_store_none) auto
  with ctor_failed e r d show ?thesis
    by (simp add: n_dial_append n_stream_open_append)
       (simp add: n_dial_def n_stream_open_def)
next
  case (installed pre mgr1 r1 mgr2 ds t f cn r2)
  note e = entry_tr_bounds [OF installed(2)] and r = reuse_tr_bounds [OF installed(3)]
    and d = dial_rel_n_dial [OF installed(4)] dial_rel_n_stream_open [OF installed(4)]
      dial_rel_no_store [OF installed(4)]
    and r' = reuse_tr_bounds [OF installed(5)]
  have "after_store ((pre @ r1 @ ds @ [ctor_ev https mgr2 t f (Some cn)]) @
          Ev_conn_store (conn mgr2) cn # r2) = r2"
    using e r d by (subst after_store_skip) (auto simp: after_store_here)
  then have a: "after_store evs = r2" using installed(1) by simp
  from installed(1) e r d r' show ?thesis
    unfolding a
    by (simp add: n_dial_append n_stream_open_append)
       (simp add: n_dial_def n_stream_open_def)
qed

subsection \<open>Constructor failures and failed requests\<close>

lemma dial_event_not_ctor: "is_aux e \<or> is_dial e \<Longrightarrow> constructed e = None"
  by (cases e) simp_all

lemma dial_rel_not_ctor: "dial_rel https ds t f \<Longrightarrow> e \<in> set ds \<Longrightarrow> constructed e = None"
  using dial_rel_events dial_event_not_ctor by blast

lemma dial_rel_dialed: "dial_rel https ds (Some t) f \<Longrightarrow> \<exists>d\<in>set ds. is_dial d \<and> dialed d = Some t"
proof -
  assume "dial_rel https ds (Some t) f"
  then obtain d where d: "filter is_dial ds = [d]" "dialed d = Some t"
    by (auto simp: dial_rel_def dial_tr_def)
  have "d \<in> set ds \<and> is_dial d"
    using d(1) by (metis Cons_eq_filterD in_set_conv_decomp)
  with d(2) show ?thesis by blast
qed

lemma reuse_tr_nil: "reuse_tr mgr req evs None mgr' \<Longrightarrow> conn mgr' = None"
  by (erule reuse_tr.cases) simp_all

lemma reuse_tr_fields:
  "reuse_tr mgr req evs res mgr' \<Longrightarrow>
     obj mgr' = obj mgr \<and> creds mgr' = creds mgr \<and> jar mgr' = jar mgr \<and>
     use_h2c mgr' = use_h2c mgr"
  by (erule reuse_tr.cases) simp_all

lemma entry_tr_fields:
  "entry_tr https mgr pre mgr1 \<Longrightarrow>
     obj mgr1 = obj mgr \<and> conn mgr1 = conn mgr \<and> jar mgr1 = jar mgr \<and>
     use_h2c mgr1 = use_h2c mgr"
  by (erule entry_tr.cases) simp_all

lemma reuse_tr_not_ctor: "reuse_tr mgr req evs res mgr' \<Longrightarrow> e \<in> set evs \<Longrightarrow> constructed e = None"
  by (erule reuse_tr.cases) auto

lemma entry_tr_not_ctor: "entry_tr https mgr pre mgr1 \<Longrightarrow> e \<in> set pre \<Longrightarrow> constructed e = None"
  by (erule entry_tr.cases) auto

lemma request_tr_ctor_failed:
  assumes "request_tr https mgr req evs res mgr'"
    and k: "k \<in> set evs" "constructed k = Some (t, None)"
  shows "res = None \<and> (\<exists>d\<in>set evs. is_dial d \<and> dialed d = Some t) \<and>
         last evs = Ev_tls_Close t \<and> conn mgr' = None \<and> (\<forall>e\<in>set evs. \<not> is_store e)"
  using assms(1)
proof cases
  case mix_https
  with k show ?thesis by simp
next
  case mix_http
  with k show ?thesis by simp
next
  case no_creds
  with k show ?thesis by auto
next
  case (reused pre mgr1 r1 m)
  with k show ?thesis
    using entry_tr_not_ctor [OF reused(3), of k] reuse_tr_not_ctor [OF reused(4), of k] by auto
next
  case (dial_failed pre mgr1 r1 ds f)
  with k show ?thesis
    using entry_tr_not_ctor [OF dial_failed(3), of k] reuse_tr_not_ctor [OF dial_failed(4), of k]
      dial_rel_not_ctor [OF dial_failed(5), of k] by auto
next
  case (ctor_failed pre mgr1 r1 ds t' f)
  have "t' = t"
    using k ctor_failed(1) entry_tr_not_ctor [OF ctor_failed(3), of k]
      reuse_tr_not_ctor [OF ctor_failed(4), of k] dial_rel_not_ctor [OF ctor_failed(5), of k]
    by auto
  moreover note entry_tr_bounds [OF ctor_failed(3)] reuse_tr_bounds [OF ctor_failed(4)]
    dial_rel_no_store [OF ctor_failed(5)] reuse_tr_nil [OF ctor_failed(4)]
    dial_rel_dialed [OF ctor_failed(5)]
  ultimately show ?thesis using ctor_failed(1,2) by auto
next
  case (installed pre mgr1 r1 mgr2 ds t' f cn r2)
  with k show ?thesis
    using entry_tr_not_ctor [OF installed(2), of k] reuse_tr_not_ctor [OF installed(3), of k]
      dial_rel_not_ctor [OF installed(4), of k] reuse_tr_not_ctor [OF installed(5), of k]
    by auto
qed

lemma reuse_tr_released:
  "reuse_tr mgr req evs None mgr' \<Longrightarrow> Ev_stream_open c r s \<in> set evs \<Longrightarrow>
     Ev_conn_release c \<in> set evs"
  by (erule reuse_tr.cases) auto

lemma reuse_tr_no_open:
  "reuse_tr mgr req evs res mgr' \<Longrightarrow> \<forall>e\<in>set evs. \<not> is_stream_open e \<Longrightarrow> mgr' = mgr"
  by (erule reuse_tr.cases) auto

lemma entry_tr_no_open: "entry_tr https mgr pre mgr1 \<Longrightarrow> \<forall>e\<in>set pre. \<not> is_stream_open e"
  by (erule entry_tr.cases) auto

lemma dial_rel_no_open: "dial_rel https ds t f \<Longrightarrow> \<forall>e\<in>set ds. \<not> is_stream_open e"
  using dial_rel_events [of https ds t f] dial_event_kind by blast

lemma reuse_tr_opens: "reuse_tr mgr req evs res mgr' \<Longrightarrow> conn mgr \<noteq> None \<Longrightarrow>
  \<exists>e\<in>set evs. is_stream_open e"
  by (erule reuse_tr.cases) auto

lemma request_tr_failure:
  assumes "request_tr https mgr req evs None mgr'"
  shows "((\<exists>e\<in>set evs. is_stream_open e) \<longrightarrow>
            conn mgr' = None \<and>
            (\<forall>c r s. Ev_stream_open c r s \<in> set evs \<longrightarrow> Ev_conn_release c \<in> set evs)) \<and>
         ((\<forall>e\<in>set evs. \<not> is_stream_open e) \<longrightarrow> conn mgr' = conn mgr)"
  using assms
proof cases
  case mix_https
  then show ?thesis by simp
next
  case mix_http
  then show ?thesis by simp
next
  case no_creds
  then show ?thesis by simp
next
  case (dial_failed pre mgr1 r1 ds f)
  note e = entry_tr_fields [OF dial_failed(2)] entry_tr_no_open [OF dial_failed(2)]
    and r = reuse_tr_nil [OF dial_failed(3)] reuse_tr_released [OF dial_failed(3)]
      reuse_tr_no_open [OF dial_failed(3)]
    and d = dial_rel_no_open [OF dial_failed(4)]
  have "Ev_stream_open c r s \<in> set evs \<Longrightarrow> Ev_conn_release c \<in> set evs" for c r s
    using dial_failed(1) e(2) d r(2) [of c r s] by auto
  moreover have "\<forall>e\<in>set evs. \<not> is_stream_open e \<Longrightarrow> conn mgr' = conn mgr"
    using dial_failed(1) e r(3) by auto
  ultimately show ?thesis using r(1) by blast
next
  case (ctor_failed pre mgr1 r1 ds t f)
  note e = entry_tr_fields [OF ctor_failed(2)] entry_tr_no_open [OF ctor_failed(2)]
    and r = reuse_tr_nil [OF ctor_failed(3)] reuse_tr_released [OF ctor_failed(3)]
      reuse_tr_no_open [OF ctor_failed(3)]
    and d = dial_rel_no_open [OF ctor_failed(4)]
  have "Ev_stream_open c r s \<in> set evs \<Longrightarrow> Ev_conn_release c \<in> set evs" for c r s
    using ctor_failed(1) e(2) d r(2) [of c r s] by (auto simp: ctor_ev_def split: if_splits)
  moreover have "\<forall>e\<in>set evs. \<not> is_stream_open e \<Longrightarrow> conn mgr' = conn mgr"
    using ctor_failed(1) e r(3) by auto
  ultimately show ?thesis using r(1) by blast
next
  case (installed pre mgr1 r1 mgr2 ds t f cn r2)
  note e = entry_tr_fields [OF installed(2)] entry_tr_no_open [OF installed(2)]
    and r = reuse_tr_nil [OF installed(3)] reuse_tr_released [OF installed(3)]
    and d = dial_rel_no_open [OF installed(4)]
    and r' = reuse_tr_nil [OF installed(5)] reuse_tr_released [OF installed(5)]
      reuse_tr_opens [OF installed(5)]
  have "Ev_stream_open c r s \<in> set evs \<Longrightarrow> Ev_conn_release c \<in> set evs" for c r s
    using installed(1) e(2) d r(2) [of c r s] r'(2) [of c r s]
    by (auto simp: ctor_ev_def split: if_splits)
  moreover have "\<exists>e\<in>set evs. is_stream_open e"
    using installed(1) r'(3) by auto
  ultimately show ?thesis using r'(1) by blast
qed

subsection \<open>Ports and protocol versions\<close>

lemma https_connect_eq:
  "vlc_https_connect E cr name prt two lg =
     (let prt' = (if prt = 0 then 443 else prt);
          off = (if two then [''h2'', ''http/1.1''] else [''http/1.1'']);
          r = vlc_tls_SocketOpenTLS E lg cr name prt' ''https'' off
      in ((map_option fst r, (case r of None \<Rightarrow> two | Some (t, alp) \<Rightarrow> alp = Some ''h2'')),
          lg @ [Ev_SocketOpenTLS cr name prt' ''https'' off r]))"
  by (simp add: vlc_https_connect_def Let_def split: option.splits)

lemma proxy_find_cases:
  "\<exists>u. vlc_http_proxy_find E h p s lg = (None, lg @ [Ev_asprintf u False]) \<or>
       (\<exists>px. vlc_http_proxy_find E h p s lg =
          (px, lg @ [Ev_asprintf u True, Ev_getProxyUrl u px]))"
  by (simp add: vlc_http_proxy_find_def Let_def)

lemma http_connect_ports:
  "\<exists>t px evs. vlc_http_connect_i11e E ob host prt lg = ((t, px), lg @ evs) \<and>
      px = (\<exists>u p. Ev_getProxyUrl u (Some p) \<in> set evs) \<and>
      (\<not> px \<longrightarrow>
         filter is_dial evs = [Ev_SocketOpenTCP ob host (if prt = 0 then 80 else prt) t]) \<and>
      (px \<longrightarrow>
         (\<exists>u p url. Ev_getProxyUrl u (Some p) \<in> set evs \<and> Ev_UrlParse p url \<in> set evs \<and>
            (case psz_host url of
               None \<Rightarrow> t = None \<and> filter is_dial evs = []
             | Some h \<Rightarrow>
                 filter is_dial evs =
                   [Ev_SocketOpenTCP ob h (if i_port url = 0 then 80 else i_port url) t])))"
proof -
  obtain u where u:
    "vlc_http_proxy_find E host prt False lg = (None, lg @ [Ev_asprintf u False]) \<or>
       (\<exists>px. vlc_http_proxy_find E host prt False lg =
          (px, lg @ [Ev_asprintf u True, Ev_getProxyUrl u px]))"
    using proxy_find_cases by blast
  then consider
      (noalloc) "vlc_http_proxy_find E host prt False lg = (None, lg @ [Ev_asprintf u False])"
    | (noproxy) "vlc_http_proxy_find E host prt False lg =
          (None, lg @ [Ev_asprintf u True, Ev_getProxyUrl u None])"
    | (proxy) p where "vlc_http_proxy_find E host prt False lg =
          (Some p, lg @ [Ev_asprintf u True, Ev_getProxyUrl u (Some p)])"
    by (metis option.exhaust)
  then show ?thesis
  proof cases
    case noalloc
    then show ?thesis by (auto simp: vlc_http_connect_i11e_def Let_def)
  next
    case noproxy
    then show ?thesis by (auto simp: vlc_http_connect_i11e_def Let_def)
  next
    case proxy
    define url where
      "url = vlc_UrlParse E (lg @ [Ev_asprintf u True, Ev_getProxyUrl u (Some p)]) p"
    show ?thesis
    proof (cases "psz_host url")
      case None
      with proxy show ?thesis
        by (auto simp: vlc_http_connect_i11e_def Let_def url_def [symmetric]
            intro!: exI [of _ u] exI [of _ p] exI [of _ url])
    next
      case (Some h)
      with proxy show ?thesis
        by (auto simp: vlc_http_connect_i11e_def Let_def url_def [symmetric]
            intro!: exI [of _ u] exI [of _ p] exI [of _ url])
    qed
  qed
qed

lemma ctor_calls_append: "ctor_calls (xs @ ys) = ctor_calls xs @ ctor_calls ys"
  by (simp add: ctor_calls_def)

lemma ctor_calls_none: "\<forall>e\<in>set xs. constructed e = None \<Longrightarrow> ctor_calls xs = []"
  by (simp add: ctor_calls_def filter_empty_conv)

lemma n_dial_0: "n_dial evs = 0 \<Longrightarrow> e \<in> set evs \<Longrightarrow> \<not> is_dial e"
  by (auto simp: n_dial_def filter_empty_conv)

lemma dial_rel_result:
  assumes "dial_rel https ds t f" "e \<in> set ds" "is_dial e"
  shows "dialed e = t"
proof -
  have m: "e \<in> set (filter is_dial ds)"
    using assms(2,3) by simp
  from assms(1) consider "filter is_dial ds = []"
    | d where "filter is_dial ds = [d]" "dialed d = t"
    by (auto simp: dial_rel_def dial_tr_def)
  then show ?thesis
  proof cases
    case 1
    with m show ?thesis by (simp only: list.set empty_iff)
  next
    case (2 d)
    from m have "e = d" by (simp only: 2(1) list.set insert_iff empty_iff) simp
    with 2(2) show ?thesis by simp
  qed
qed

lemma dial_rel_alpn:
  assumes "dial_rel True ds t' f" and m: "Ev_SocketOpenTLS cr n p s off r \<in> set ds"
  shows "off = [''h2'', ''http/1.1''] \<and> (\<forall>t alp. r = Some (t, alp) \<longrightarrow> f = (alp = Some ''h2''))"
proof -
  from assms(1) have "alpn_rel ds f" by (simp add: dial_rel_def)
  then have "\<forall>e\<in>set ds. case e of
       Ev_SocketOpenTLS cr n p s off r \<Rightarrow>
         off = [''h2'', ''http/1.1''] \<and>
         (case r of None \<Rightarrow> True | Some (t, alp) \<Rightarrow> f = (alp = Some ''h2''))
     | _ \<Rightarrow> True"
    by (simp only: alpn_rel_def)
  from bspec [OF this m] show ?thesis by (cases r) auto
qed

lemma reuse_tr_not_h1: "reuse_tr mgr req evs res mgr' \<Longrightarrow> Ev_h1_conn_create ob t b c \<notin> set evs"
  by (erule reuse_tr.cases) auto

lemma entry_tr_not_h1: "entry_tr https mgr pre mgr1 \<Longrightarrow> Ev_h1_conn_create ob t b c \<notin> set pre"
  by (erule entry_tr.cases) auto

lemma dial_rel_not_h1: "dial_rel https ds t' f \<Longrightarrow> Ev_h1_conn_create ob t b c \<notin> set ds"
  using dial_rel_not_ctor [of https ds t' f "Ev_h1_conn_create ob t b c"] by auto

lemma request_tr_h1_unproxied:
  assumes "request_tr True mgr req evs res mgr'" and "Ev_h1_conn_create ob t b c \<in> set evs"
  shows "\<not> b"
  using assms(1)
proof cases
  case mix_https
  with assms(2) show ?thesis by simp
next
  case mix_http
  then show ?thesis by simp
next
  case no_creds
  with assms(2) show ?thesis by simp
next
  case (reused pre mgr1 r1 m)
  with assms(2) show ?thesis
    using entry_tr_not_h1 [OF reused(3)] reuse_tr_not_h1 [OF reused(4)] by auto
next
  case (dial_failed pre mgr1 r1 ds f)
  with assms(2) show ?thesis
    using entry_tr_not_h1 [OF dial_failed(3)] reuse_tr_not_h1 [OF dial_failed(4)]
      dial_rel_not_h1 [OF dial_failed(5)] by auto
next
  case (ctor_failed pre mgr1 r1 ds t' f)
  with assms(2) show ?thesis
    using entry_tr_not_h1 [OF ctor_failed(3)] reuse_tr_not_h1 [OF ctor_failed(4)]
      dial_rel_not_h1 [OF ctor_failed(5)] by (auto simp: ctor_ev_def split: if_splits)
next
  case (installed pre mgr1 r1 mgr2 ds t' f cn r2)
  with assms(2) show ?thesis
    using entry_tr_not_h1 [OF installed(2)] reuse_tr_not_h1 [OF installed(3)]
      dial_rel_not_h1 [OF installed(4)] reuse_tr_not_h1 [OF installed(5)]
    by (auto simp: ctor_ev_def split: if_splits)
qed

lemma request_tr_alpn:
  assumes "request_tr True mgr req evs res mgr'"
    and ev: "Ev_SocketOpenTLS cr n p s off r \<in> set evs"
  shows "off = [''h2'', ''http/1.1''] \<and>
         (\<forall>t alp. r = Some (t, alp) \<longrightarrow>
            (\<exists>c. ctor_calls evs = [if alp = Some ''h2'' then Ev_h2_conn_create (obj mgr) t c
                                   else Ev_h1_conn_create (obj mgr) t False c]))"
  using assms(1)
proof cases
  case mix_https
  with ev show ?thesis by simp
next
  case mix_http
  then show ?thesis by simp
next
  case no_creds
  with ev show ?thesis by simp
next
  case (reused pre mgr1 r1 m)
  with ev show ?thesis
    using n_dial_0 [of pre "Ev_SocketOpenTLS cr n p s off r"] entry_tr_bounds [OF reused(3)]
      n_dial_0 [of r1 "Ev_SocketOpenTLS cr n p s off r"] reuse_tr_bounds [OF reused(4)]
    by auto
next
  case (dial_failed pre mgr1 r1 ds f)
  have in_ds: "Ev_SocketOpenTLS cr n p s off r \<in> set ds"
    using ev dial_failed(1)
      n_dial_0 [of pre "Ev_SocketOpenTLS cr n p s off r"] entry_tr_bounds [OF dial_failed(3)]
      n_dial_0 [of r1 "Ev_SocketOpenTLS cr n p s off r"] reuse_tr_bounds [OF dial_failed(4)]
    by auto
  have "r = None"
    using dial_rel_result [OF dial_failed(5) in_ds] by simp
  with dial_rel_alpn [OF dial_failed(5) in_ds] show ?thesis by simp
next
  case (ctor_failed pre mgr1 r1 ds t' f)
  have in_ds: "Ev_SocketOpenTLS cr n p s off r \<in> set ds"
    using ev ctor_failed(1)
      n_dial_0 [of pre "Ev_SocketOpenTLS cr n p s off r"] entry_tr_bounds [OF ctor_failed(3)]
      n_dial_0 [of r1 "Ev_SocketOpenTLS cr n p s off r"] reuse_tr_bounds [OF ctor_failed(4)]
    by (auto simp: ctor_ev_def split: if_splits)
  have r: "map_option fst r = Some t'"
    using dial_rel_result [OF ctor_failed(5) in_ds] by simp
  have cc: "ctor_calls evs = [ctor_ev True mgr' t' f None]"
    using ctor_failed(1) entry_tr_not_ctor [OF ctor_failed(3)]
      reuse_tr_not_ctor [OF ctor_failed(4)] dial_rel_not_ctor [OF ctor_failed(5)]
    by (simp add: ctor_calls_append ctor_calls_none) (simp add: ctor_calls_def)
  have ob: "obj mgr' = obj mgr"
    using entry_tr_fields [OF ctor_failed(3)] reuse_tr_fields [OF ctor_failed(4)] by simp
  from dial_rel_alpn [OF ctor_failed(5) in_ds] r cc ob show ?thesis
    by (auto simp: ctor_ev_def)
next
  case (installed pre mgr1 r1 mgr2 ds t' f cn r2)
  have in_ds: "Ev_SocketOpenTLS cr n p s off r \<in> set ds"
    using ev installed(1)
      n_dial_0 [of pre "Ev_SocketOpenTLS cr n p s off r"] entry_tr_bounds [OF installed(2)]
      n_dial_0 [of r1 "Ev_SocketOpenTLS cr n p s off r"] reuse_tr_bounds [OF installed(3)]
      n_dial_0 [of r2 "Ev_SocketOpenTLS cr n p s off r"] reuse_tr_bounds [OF installed(5)]
    by (auto simp: ctor_ev_def split: if_splits)
  have r: "map_option fst r = Some t'"
    using dial_rel_result [OF installed(4) in_ds] by simp
  have cc: "ctor_calls evs = [ctor_ev True mgr2 t' f (Some cn)]"
    using installed(1) entry_tr_not_ctor [OF installed(2)]
      reuse_tr_not_ctor [OF installed(3)] dial_rel_not_ctor [OF installed(4)]
      reuse_tr_not_ctor [OF installed(5)]
    by (simp add: ctor_calls_append ctor_calls_none) (simp add: ctor_calls_def)
  have ob: "obj mgr2 = obj mgr"
    using entry_tr_fields [OF installed(2)] reuse_tr_fields [OF installed(3)] by simp
  from dial_rel_alpn [OF installed(4) in_ds] r cc ob show ?thesis
    by (auto simp: ctor_ev_def)
qed

subsection \<open>One connection at a time\<close>

lemma conns_ok_append:
  "conns_ok h (xs @ ys) = (conns_ok h xs \<and> conns_ok (conns_end h xs) ys)"
  by (induction h xs rule: conns_ok.induct) simp_all

lemma conns_end_append: "conns_end h (xs @ ys) = conns_end (conns_end h xs) ys"
  by (induction h xs rule: conns_end.induct) simp_all

lemma dial_event_conns:
  "is_aux e \<or> is_dial e \<Longrightarrow> conns_ok h (e # es) = conns_ok h es \<and>
     conns_end h (e # es) = conns_end h es"
  by (cases e) simp_all

lemma dial_events_conns:
  "\<forall>e\<in>set ds. is_aux e \<or> is_dial e \<Longrightarrow> conns_ok h ds \<and> conns_end h ds = h"
  by (induction ds) (simp_all add: dial_event_conns)

lemma reuse_tr_conns:
  "reuse_tr mgr req evs res mgr' \<Longrightarrow>
     conns_ok (conn mgr) evs \<and> conns_end (conn mgr) evs = conn mgr'"
  by (erule reuse_tr.cases) simp_all

lemma entry_tr_conns:
  "entry_tr https mgr pre mgr1 \<Longrightarrow> conns_ok h pre \<and> conns_end h pre = h"
  by (erule entry_tr.cases) simp_all

lemma ctor_ev_conns:
  "conns_ok None (ctor_ev https m t f c # es) = conns_ok c es"
  "conns_end None (ctor_ev https m t f c # es) = conns_end c es"
  by (cases c; simp add: ctor_ev_def)+

lemma request_tr_conns:
  assumes "request_tr https mgr req evs res mgr'"
  shows "conns_ok (conn mgr) evs \<and> conns_end (conn mgr) evs = conn mgr'"
  using assms
proof cases
  case mix_https
  then show ?thesis by simp
next
  case mix_http
  then show ?thesis by simp
next
  case no_creds
  then show ?thesis by simp
next
  case (reused pre mgr1 r1 m)
  note e = entry_tr_conns [OF reused(3), of "conn mgr"] entry_tr_fields [OF reused(3)]
    and r = reuse_tr_conns [OF reused(4)]
  from reused(1) e r show ?thesis by (simp add: conns_ok_append conns_end_append)
next
  case (dial_failed pre mgr1 r1 ds f)
  note e = entry_tr_conns [OF dial_failed(3), of "conn mgr"] entry_tr_fields [OF dial_failed(3)]
    and r = reuse_tr_conns [OF dial_failed(4)]
    and d = dial_events_conns [OF dial_rel_events [OF dial_failed(5)], of "conn mgr'"]
  from dial_failed(1) e r d show ?thesis by (simp add: conns_ok_append conns_end_append)
next
  case (ctor_failed pre mgr1 r1 ds t f)
  note e = entry_tr_conns [OF ctor_failed(3), of "conn mgr"] entry_tr_fields [OF ctor_failed(3)]
    and r = reuse_tr_conns [OF ctor_failed(4)] reuse_tr_nil [OF ctor_failed(4)]
    and d = dial_events_conns [OF dial_rel_events [OF ctor_failed(5)], of "conn mgr'"]
  from ctor_failed(1) e r d show ?thesis
    by (simp add: conns_ok_append conns_end_append ctor_ev_conns)
next
  case (installed pre mgr1 r1 mgr2 ds t f cn r2)
  note e = entry_tr_conns [OF installed(2), of "conn mgr"] entry_tr_fields [OF installed(2)]
    and r = reuse_tr_conns [OF installed(3)] reuse_tr_nil [OF installed(3)]
    and d = dial_events_conns [OF dial_rel_events [OF installed(4)], of "conn mgr2"]
    and r' = reuse_tr_conns [OF installed(5)]
  from installed(1) e r d r' show ?thesis
    by (simp add: conns_ok_append conns_end_append ctor_ev_conns)
qed

lemma requests_tr_conns:
  "requests_tr mgr evs mgr' \<Longrightarrow>
     conns_ok (conn mgr) evs \<and> conns_end (conn mgr) evs = conn mgr'"
proof (induction rule: requests_tr.induct)
  case (none mgr)
  show ?case by simp
next
  case (more https mgr req evs res mgr1 evs' mgr2)
  with request_tr_conns [OF more.hyps(1)] show ?case
    by (simp add: conns_ok_append conns_end_append)
qed

lemma conns_ok_store:
  "conns_ok h evs \<Longrightarrow> Ev_conn_store old c \<in> set evs \<Longrightarrow> old = None"
  by (induction h evs rule: conns_ok.induct) auto

lemma lifetime_shape:
  "\<exists>evs. mgr_lifetime E ob j h2c cs lg = Inr (lg @ evs) \<and>
     (evs = [Ev_malloc False] \<or>
      (\<exists>rs mgr'. requests_tr \<lparr>obj = ob, creds = None, jar = j, conn = None, use_h2c = h2c\<rparr>
          rs mgr' \<and>
        evs = [Ev_malloc True] @ rs @
          (case conn mgr' of None \<Rightarrow> [] | Some c \<Rightarrow> [Ev_conn_release c]) @
          (case creds mgr' of None \<Rightarrow> [] | Some cr \<Rightarrow> [Ev_tls_Delete cr])))"
proof (cases "malloc_ok E lg")
  case False
  then show ?thesis by (simp add: mgr_lifetime_def vlc_http_mgr_create_def Let_def)
next
  case True
  define m0 where "m0 = \<lparr>obj = ob, creds = None, jar = j, conn = None, use_h2c = h2c\<rparr>"
  obtain mgr' rs where
    r: "mgr_requests E m0 cs (lg @ [Ev_malloc True]) = Inr (mgr', (lg @ [Ev_malloc True]) @ rs)"
    and t: "requests_tr m0 rs mgr'"
    using requests_shape by blast
  have "mgr_lifetime E ob j h2c cs lg =
      Inr (lg @ [Ev_malloc True] @ rs @
          (case conn mgr' of None \<Rightarrow> [] | Some c \<Rightarrow> [Ev_conn_release c]) @
          (case creds mgr' of None \<Rightarrow> [] | Some cr \<Rightarrow> [Ev_tls_Delete cr]))"
    using True r
    by (simp add: mgr_lifetime_def vlc_http_mgr_create_def Let_def m0_def [symmetric]
        vlc_http_mgr_destroy_def vlc_http_mgr_release_def split: option.splits)
  with t show ?thesis unfolding m0_def by blast
qed

subsection \<open>Credentials\<close>

lemma created_attempt: "creds_created e \<Longrightarrow> creds_attempt e"
  by (cases e) simp_all

lemma dial_event_creds: "is_aux e \<or> is_dial e \<Longrightarrow> \<not> creds_attempt e \<and> \<not> creds_deleted e"
  by (cases e) simp_all

lemma dial_rel_creds:
  "dial_rel https ds t f \<Longrightarrow> \<forall>e\<in>set ds. \<not> creds_attempt e \<and> \<not> creds_deleted e"
  using dial_rel_events [of https ds t f] dial_event_creds by blast

lemma reuse_tr_creds:
  "reuse_tr mgr req evs res mgr' \<Longrightarrow> \<forall>e\<in>set evs. \<not> creds_attempt e \<and> \<not> creds_deleted e"
  by (erule reuse_tr.cases) simp_all

lemma ctor_ev_creds [simp]:
  "\<not> creds_attempt (ctor_ev https m t f c)" "\<not> creds_deleted (ctor_ev https m t f c)"
  "\<not> creds_created (ctor_ev https m t f c)"
  by (simp_all add: ctor_ev_def)

lemma no_attempt_filter:
  "\<forall>e\<in>set xs. \<not> creds_attempt e \<and> \<not> creds_deleted e \<Longrightarrow>
     filter creds_attempt xs = [] \<and> filter creds_created xs = [] \<and> filter creds_deleted xs = []"
  using created_attempt by (auto simp: filter_empty_conv)

lemma creds_quiet_simps [simp]:
  "creds_quiet []"
  "creds_quiet (xs @ ys) = (creds_quiet xs \<and> creds_quiet ys)"
  "creds_quiet (x # xs) = (\<not> creds_attempt x \<and> \<not> creds_deleted x \<and> creds_quiet xs)"
  by (auto simp: creds_quiet_def)

lemma request_tr_decomp:
  assumes "request_tr https mgr req evs res mgr'"
  shows "(evs = [Ev_ClientCreate (obj mgr) None] \<and> https \<and> creds mgr = None \<and>
            conn mgr = None \<and> res = None \<and> mgr' = mgr) \<or>
         (creds_quiet evs \<and> creds mgr' = creds mgr) \<or>
         (\<exists>cr rest. evs = Ev_ClientCreate (obj mgr) (Some cr) # rest \<and> creds_quiet rest \<and>
            https \<and> creds mgr = None \<and> creds mgr' = Some cr)"
  using assms
proof cases
  case mix_https
  then show ?thesis by simp
next
  case mix_http
  then show ?thesis by simp
next
  case no_creds
  then show ?thesis by simp
next
  case (reused pre mgr1 r1 m)
  note r = reuse_tr_creds [OF reused(4)] reuse_tr_fields [OF reused(4)]
  from reused(3) reused(1) r show ?thesis
    by cases (auto simp: creds_quiet_def)
next
  case (dial_failed pre mgr1 r1 ds f)
  note r = reuse_tr_creds [OF dial_failed(4)] reuse_tr_fields [OF dial_failed(4)]
    and d = dial_rel_creds [OF dial_failed(5)]
  from dial_failed(3) dial_failed(1) r d show ?thesis
    by cases (auto simp: creds_quiet_def)
next
  case (ctor_failed pre mgr1 r1 ds t f)
  note r = reuse_tr_creds [OF ctor_failed(4)] reuse_tr_fields [OF ctor_failed(4)]
    and d = dial_rel_creds [OF ctor_failed(5)]
  from ctor_failed(3) ctor_failed(1) r d show ?thesis
    by cases (auto simp: creds_quiet_def)
next
  case (installed pre mgr1 r1 mgr2 ds t f cn r2)
  note r = reuse_tr_creds [OF installed(3)] reuse_tr_fields [OF installed(3)]
    and d = dial_rel_creds [OF installed(4)]
    and r' = reuse_tr_creds [OF installed(5)] reuse_tr_fields [OF installed(5)]
  from installed(2) installed(1) r d r' show ?thesis
    by cases (auto simp: creds_quiet_def)
qed

lemma creds_quiet_filters:
  "creds_quiet xs \<Longrightarrow>
     filter creds_attempt xs = [] \<and> filter creds_created xs = [] \<and> filter creds_deleted xs = []"
  using no_attempt_filter by (simp add: creds_quiet_def)

lemma creds_quiet_mem: "creds_quiet xs \<Longrightarrow> e \<in> set xs \<Longrightarrow> \<not> creds_attempt e \<and> \<not> creds_deleted e"
  by (simp add: creds_quiet_def)

lemma request_tr_creds:
  assumes "request_tr https mgr req evs res mgr'"
  shows "(\<forall>e\<in>set evs. \<not> creds_deleted e) \<and>
         length (filter creds_attempt evs) \<le> 1 \<and>
         (\<not> https \<or> creds mgr \<noteq> None \<longrightarrow>
            (\<forall>e\<in>set evs. \<not> creds_attempt e) \<and> creds mgr' = creds mgr) \<and>
         (\<forall>ob. Ev_ClientCreate ob None \<in> set evs \<longrightarrow>
            res = None \<and> mgr' = mgr \<and> creds mgr' = None \<and> conn mgr' = None \<and>
            evs = [Ev_ClientCreate (obj mgr) None])"
proof -
  from request_tr_decomp [OF assms] consider
      (failed) "evs = [Ev_ClientCreate (obj mgr) None]" "https" "creds mgr = None"
        "conn mgr = None" "res = None" "mgr' = mgr"
    | (quiet) "creds_quiet evs" "creds mgr' = creds mgr"
    | (created) cr rest where "evs = Ev_ClientCreate (obj mgr) (Some cr) # rest"
        "creds_quiet rest" "https" "creds mgr = None" "creds mgr' = Some cr"
    by (elim disjE conjE exE) blast+
  then show ?thesis
  proof cases
    case failed
    then show ?thesis by simp
  next
    case quiet
    have "Ev_ClientCreate ob None \<notin> set evs" for ob
      using creds_quiet_mem [OF quiet(1), of "Ev_ClientCreate ob None"] by auto
    with creds_quiet_filters [OF quiet(1)] creds_quiet_mem [OF quiet(1)] quiet(2)
    show ?thesis by auto
  next
    case created
    have "Ev_ClientCreate ob None \<notin> set rest" for ob
      using creds_quiet_mem [OF created(2), of "Ev_ClientCreate ob None"] by auto
    with creds_quiet_filters [OF created(2)] creds_quiet_mem [OF created(2)] created(1,3,4,5)
    show ?thesis by auto
  qed
qed

lemma request_tr_created:
  assumes "request_tr https mgr req evs res mgr'"
  shows "(\<forall>e\<in>set evs. \<not> creds_deleted e) \<and>
         (creds mgr \<noteq> None \<longrightarrow> creds mgr' = creds mgr \<and> filter creds_created evs = []) \<and>
         (creds mgr = None \<longrightarrow>
            (creds mgr' = None \<and> filter creds_created evs = []) \<or>
            (\<exists>cr ob. creds mgr' = Some cr \<and>
               filter creds_created evs = [Ev_ClientCreate ob (Some cr)]))"
proof -
  from request_tr_decomp [OF assms] consider
      (failed) "evs = [Ev_ClientCreate (obj mgr) None]" "https" "creds mgr = None"
        "conn mgr = None" "res = None" "mgr' = mgr"
    | (quiet) "creds_quiet evs" "creds mgr' = creds mgr"
    | (created) cr rest where "evs = Ev_ClientCreate (obj mgr) (Some cr) # rest"
        "creds_quiet rest" "https" "creds mgr = None" "creds mgr' = Some cr"
    by (elim disjE conjE exE) blast+
  then show ?thesis
  proof cases
    case failed
    then show ?thesis by simp
  next
    case quiet
    from creds_quiet_filters [OF quiet(1)] creds_quiet_mem [OF quiet(1)] quiet(2)
    show ?thesis by auto
  next
    case created
    from creds_quiet_filters [OF created(2)] creds_quiet_mem [OF created(2)] created(1,3,4,5)
    show ?thesis by auto
  qed
qed

lemma requests_tr_created:
  "requests_tr mgr evs mgr' \<Longrightarrow>
     (\<forall>e\<in>set evs. \<not> creds_deleted e) \<and>
     (creds mgr \<noteq> None \<longrightarrow> creds mgr' = creds mgr \<and> filter creds_created evs = []) \<and>
     (creds mgr = None \<longrightarrow>
        (creds mgr' = None \<and> filter creds_created evs = []) \<or>
        (\<exists>cr ob. creds mgr' = Some cr \<and>
           filter creds_created evs = [Ev_ClientCreate ob (Some cr)]))"
proof (induction rule: requests_tr.induct)
  case (none mgr)
  show ?case by simp
next
  case (more https mgr req evs res mgr1 evs' mgr2)
  note a = request_tr_created [OF more.hyps(1)] and b = more.IH
  show ?case
  proof (cases "creds mgr")
    case (Some cr)
    with a b show ?thesis by auto
  next
    case None
    note m = this
    show ?thesis
    proof (cases "creds mgr1")
      case None
      with m a b show ?thesis by auto
    next
      case (Some cr)
      with m a b show ?thesis by auto
    qed
  qed
qed

lemma https_first_attempt:
  assumes "creds mgr = None" "conn mgr = None"
  shows "\<exists>res mgr' rest.
           vlc_http_mgr_request E mgr True host prt req lg =
             Inr (res, mgr',
                  lg @ Ev_ClientCreate (obj mgr) (vlc_tls_ClientCreate E lg (obj mgr)) # rest) \<and>
           creds_quiet rest \<and> creds mgr' = vlc_tls_ClientCreate E lg (obj mgr)"
proof (cases "vlc_tls_ClientCreate E lg (obj mgr)")
  case None
  with assms show ?thesis
    by (simp add: vlc_http_mgr_request_def https_request_dispatch)
next
  case (Some cr)
  define mgr1 where "mgr1 = mgr\<lparr>creds := Some cr\<rparr>"
  have entry: "entry_tr True mgr1 [] mgr1"
    by (rule entry_tr.have_creds [of mgr1 cr]) (simp add: mgr1_def)
  obtain res mgr' evs where
    d: "dispatch E (\<lambda>m l. vlc_https_connect_i11e E cr host prt True l) (\<lambda>m f. f) (\<lambda>f. False)
          mgr1 host prt req ((lg @ [Ev_ClientCreate (obj mgr) (Some cr)]) @ []) =
        Inr (res, mgr', (lg @ [Ev_ClientCreate (obj mgr) (Some cr)]) @ evs)"
    and t: "request_tr True mgr1 req evs res mgr'"
    using dispatch_shape [OF entry, of "\<lambda>m l. vlc_https_connect_i11e E cr host prt True l"
        "\<lambda>m f. f" "\<lambda>f. False" E host prt req "lg @ [Ev_ClientCreate (obj mgr) (Some cr)]"]
      https_dial_shape
    by (auto simp: ctor_ev_def)
  have c1: "creds mgr1 \<noteq> None" by (simp add: mgr1_def)
  from request_tr_creds [OF t] c1 have q: "creds_quiet evs" and c: "creds mgr' = Some cr"
    by (simp_all add: creds_quiet_def mgr1_def)
  from assms Some d q c show ?thesis
    by (simp add: vlc_http_mgr_request_def https_request_dispatch mgr1_def)
qed

lemma lifetime_creds:
  "\<exists>evs. mgr_lifetime E ob j h2c cs lg' = Inr (lg' @ evs) \<and>
      length (filter creds_created evs) \<le> 1 \<and>
      length (filter creds_deleted evs) = length (filter creds_created evs) \<and>
      (\<forall>e\<in>set (butlast evs). \<not> creds_deleted e) \<and>
      (\<forall>cr. Ev_tls_Delete cr \<in> set evs \<longrightarrow>
         (\<exists>ob'. Ev_ClientCreate ob' (Some cr) \<in> set evs))"
proof -
  define P where "P = (\<lambda>evs. length (filter creds_created evs) \<le> 1 \<and>
      length (filter creds_deleted evs) = length (filter creds_created evs) \<and>
      (\<forall>e\<in>set (butlast evs). \<not> creds_deleted e) \<and>
      (\<forall>cr. Ev_tls_Delete cr \<in> set evs \<longrightarrow>
         (\<exists>ob'. Ev_ClientCreate ob' (Some cr) \<in> set evs)))"
  obtain evs where l: "mgr_lifetime E ob j h2c cs lg' = Inr (lg' @ evs)"
    and s: "evs = [Ev_malloc False] \<or>
      (\<exists>rs mgr'. requests_tr \<lparr>obj = ob, creds = None, jar = j, conn = None, use_h2c = h2c\<rparr>
          rs mgr' \<and>
        evs = [Ev_malloc True] @ rs @
          (case conn mgr' of None \<Rightarrow> [] | Some c \<Rightarrow> [Ev_conn_release c]) @
          (case creds mgr' of None \<Rightarrow> [] | Some cr \<Rightarrow> [Ev_tls_Delete cr]))"
    using lifetime_shape by blast
  have "P evs"
    using s
  proof
    assume "evs = [Ev_malloc False]"
    then show ?thesis by (simp add: P_def)
  next
    assume "\<exists>rs mgr'. requests_tr \<lparr>obj = ob, creds = None, jar = j, conn = None, use_h2c = h2c\<rparr>
          rs mgr' \<and>
        evs = [Ev_malloc True] @ rs @
          (case conn mgr' of None \<Rightarrow> [] | Some c \<Rightarrow> [Ev_conn_release c]) @
          (case creds mgr' of None \<Rightarrow> [] | Some cr \<Rightarrow> [Ev_tls_Delete cr])"
    then obtain rs mgr' where
      t: "requests_tr \<lparr>obj = ob, creds = None, jar = j, conn = None, use_h2c = h2c\<rparr> rs mgr'"
      and e: "evs = [Ev_malloc True] @ rs @
          (case conn mgr' of None \<Rightarrow> [] | Some c \<Rightarrow> [Ev_conn_release c]) @
          (case creds mgr' of None \<Rightarrow> [] | Some cr \<Rightarrow> [Ev_tls_Delete cr])"
      by blast
    define rel where "rel = (case conn mgr' of None \<Rightarrow> [] | Some c \<Rightarrow> [Ev_conn_release c])"
    have rel: "\<forall>e\<in>set rel. \<not> creds_deleted e \<and> \<not> creds_created e"
      by (cases "conn mgr'") (simp_all add: rel_def)
    then have relf: "filter creds_deleted rel = []" "filter creds_created rel = []"
      by (simp_all add: filter_empty_conv)
    note c = requests_tr_created [OF t]
    then have nodel: "filter creds_deleted rs = []" by (simp add: filter_empty_conv)
    show ?thesis
    proof (cases "creds mgr'")
      case None
      with c have cr: "filter creds_created rs = []" by auto
      have ev: "evs = Ev_malloc True # rs @ rel" using e None by (simp add: rel_def)
      have "\<forall>e\<in>set evs. \<not> creds_deleted e" using ev c rel by auto
      moreover from this have "\<forall>e\<in>set (butlast evs). \<not> creds_deleted e"
        by (meson in_set_butlastD)
      moreover have "\<And>cr. Ev_tls_Delete cr \<notin> set evs"
        using calculation(1) by fastforce
      ultimately show ?thesis using ev cr nodel relf by (simp add: P_def)
    next
      case (Some k)
      with c obtain ob' where cr: "filter creds_created rs = [Ev_ClientCreate ob' (Some k)]"
        by auto
      then have "Ev_ClientCreate ob' (Some k) \<in> set (filter creds_created rs)" by simp
      then have mem: "Ev_ClientCreate ob' (Some k) \<in> set rs" by (simp only: set_filter) simp
      have ev: "evs = (Ev_malloc True # rs @ rel) @ [Ev_tls_Delete k]"
        using e Some by (simp add: rel_def)
      have bl: "butlast evs = Ev_malloc True # rs @ rel"
        by (simp only: ev butlast_snoc)
      have nd: "\<forall>e\<in>set (Ev_malloc True # rs @ rel). \<not> creds_deleted e" using c rel by auto
      have "Ev_tls_Delete cr \<notin> set (Ev_malloc True # rs @ rel)" for cr
        using nd by (metis creds_deleted.simps(1))
      then have only: "Ev_tls_Delete cr \<in> set evs \<Longrightarrow> cr = k" for cr
        by (simp add: ev)
      show ?thesis
        unfolding P_def bl using nd only mem ev cr nodel relf by auto
    qed
  qed
  with l show ?thesis unfolding P_def by blast
qed

lemma request_attempts:
  "\<exists>res mgr' evs.
     vlc_http_mgr_request E mgr https host prt req lg = Inr (res, mgr', lg @ evs) \<and>
     length (filter creds_attempt evs) \<le> (if https then 1 else 0)"
proof -
  obtain res mgr' evs where
    r: "vlc_http_mgr_request E mgr https host prt req lg = Inr (res, mgr', lg @ evs)"
    and t: "request_tr https mgr req evs res mgr'"
    using request_shape by blast
  from request_tr_creds [OF t] have "length (filter creds_attempt evs) \<le> (if https then 1 else 0)"
    by (auto simp: filter_empty_conv)
  with r show ?thesis by blast
qed

lemma requests_attempts:
  "\<exists>mgr' evs. mgr_requests E mgr cs lg = Inr (mgr', lg @ evs) \<and>
     length (filter creds_attempt evs) \<le> length (filter fst cs)"
proof (induction cs arbitrary: mgr lg)
  case Nil
  show ?case by simp
next
  case (Cons c cs)
  obtain https host prt req where c: "c = (https, host, prt, req)" by (cases c) auto
  obtain res mgr1 evs where
    r: "vlc_http_mgr_request E mgr https host prt req lg = Inr (res, mgr1, lg @ evs)"
    and n: "length (filter creds_attempt evs) \<le> (if https then 1 else 0)"
    using request_attempts by blast
  obtain mgr2 evs' where
    rs: "mgr_requests E mgr1 cs (lg @ evs) = Inr (mgr2, (lg @ evs) @ evs')"
    and ns: "length (filter creds_attempt evs') \<le> length (filter fst cs)"
    using Cons.IH by blast
  have "mgr_requests E mgr (c # cs) lg = Inr (mgr2, lg @ evs @ evs')"
    using c r rs by simp
  moreover have "length (filter creds_attempt (evs @ evs')) \<le> length (filter fst (c # cs))"
    using c n ns by (simp split: if_splits)
  ultimately show ?case by blast
qed

lemma destroy_creds:
  "\<exists>evs. vlc_http_mgr_destroy mgr lg = Inr (lg @ evs) \<and>
     (\<forall>e\<in>set evs. \<not> creds_attempt e) \<and>
     filter creds_deleted evs = (case creds mgr of None \<Rightarrow> [] | Some cr \<Rightarrow> [Ev_tls_Delete cr])"
  by (cases "conn mgr"; cases "creds mgr")
     (simp_all add: vlc_http_mgr_destroy_def vlc_http_mgr_release_def)

lemma lifetime_attempts:
  "\<exists>evs. mgr_lifetime E ob j h2c cs lg = Inr (lg @ evs) \<and>
     length (filter creds_attempt evs) \<le> length (filter fst cs)"
proof (cases "malloc_ok E lg")
  case False
  then show ?thesis by (simp add: mgr_lifetime_def vlc_http_mgr_create_def Let_def)
next
  case True
  define m0 where "m0 = \<lparr>obj = ob, creds = None, jar = j, conn = None, use_h2c = h2c\<rparr>"
  obtain mgr' rs where
    r: "mgr_requests E m0 cs (lg @ [Ev_malloc True]) = Inr (mgr', (lg @ [Ev_malloc True]) @ rs)"
    and n: "length (filter creds_attempt rs) \<le> length (filter fst cs)"
    using requests_attempts by blast
  obtain ds where
    d: "vlc_http_mgr_destroy mgr' (lg @ Ev_malloc True # rs) = Inr ((lg @ Ev_malloc True # rs) @ ds)"
    and nd: "\<forall>e\<in>set ds. \<not> creds_attempt e"
    using destroy_creds by blast
  from nd have fd: "filter creds_attempt ds = []" by (simp add: filter_empty_conv)
  have "mgr_lifetime E ob j h2c cs lg = Inr (lg @ Ev_malloc True # rs @ ds)"
    using True r d by (simp add: mgr_lifetime_def vlc_http_mgr_create_def Let_def m0_def)
  moreover have "length (filter creds_attempt (Ev_malloc True # rs @ ds)) \<le> length (filter fst cs)"
    using n fd by simp
  ultimately show ?thesis by blast
qed

subsection \<open>Running the code on concrete inputs\<close>

lemmas run_defs = vlc_http_mgr_request_def vlc_https_request_def vlc_http_request_def
  vlc_http_mgr_reuse_def vlc_http_mgr_find_def vlc_http_mgr_release_def
  vlc_https_connect_i11e_def vlc_http_connect_i11e_def vlc_http_proxy_find_def
  vlc_https_connect_def Let_def

lemmas life_defs = mgr_lifetime_def vlc_http_mgr_create_def vlc_http_mgr_destroy_def

subsection \<open>The statements of the specification, proved of the code\<close>

text \<open>
  C1. \<open>vlc_http_mgr_reuse\<close>, for every request and every manager state: with no cached
  connection it returns nil, and neither the manager nor the history changes (no
  collaborator is called, nothing fails); with a cached connection it opens a stream on
  it with the request; if the stream cannot be opened, or if it is opened and the
  initial message cannot be fetched, the cached connection is released, the slot is
  cleared and nil is returned; if the initial message is fetched, that message is
  returned and the manager (its slot included) is unchanged.
\<close>

theorem C1_reuse:
  "(conn mgr = None \<longrightarrow> vlc_http_mgr_reuse E mgr host prt req lg = Inr (None, mgr, lg)) \<and>
   (\<forall>c. conn mgr = Some c \<and> vlc_http_stream_open E lg c req = None \<longrightarrow>
      vlc_http_mgr_reuse E mgr host prt req lg =
        Inr (None, mgr\<lparr>conn := None\<rparr>, lg @ [Ev_stream_open c req None, Ev_conn_release c])) \<and>
   (\<forall>c st. conn mgr = Some c \<and> vlc_http_stream_open E lg c req = Some st \<and>
      vlc_http_msg_get_initial E (lg @ [Ev_stream_open c req (Some st)]) st = None \<longrightarrow>
      vlc_http_mgr_reuse E mgr host prt req lg =
        Inr (None, mgr\<lparr>conn := None\<rparr>,
             lg @ [Ev_stream_open c req (Some st), Ev_msg_get_initial st None,
                   Ev_conn_release c])) \<and>
   (\<forall>c st m. conn mgr = Some c \<and> vlc_http_stream_open E lg c req = Some st \<and>
      vlc_http_msg_get_initial E (lg @ [Ev_stream_open c req (Some st)]) st = Some m \<longrightarrow>
      vlc_http_mgr_reuse E mgr host prt req lg =
        Inr (Some m, mgr,
             lg @ [Ev_stream_open c req (Some st), Ev_msg_get_initial st (Some m)]))"
  by (simp add: reuse_eq)

theorem C1_reuse_witness:
  "vlc_http_mgr_reuse env_ok mgr0 ''example.test'' 443 1 [] = Inr (None, mgr0, []) \<and>
   vlc_http_mgr_reuse env_dead (mgr0\<lparr>conn := Some 11\<rparr>) ''example.test'' 443 1 [] =
     Inr (None, mgr0, [Ev_stream_open 11 1 None, Ev_conn_release 11]) \<and>
   vlc_http_mgr_reuse env_silent (mgr0\<lparr>conn := Some 11\<rparr>) ''example.test'' 443 1 [] =
     Inr (None, mgr0,
          [Ev_stream_open 11 1 (Some 21), Ev_msg_get_initial 21 None, Ev_conn_release 11]) \<and>
   vlc_http_mgr_reuse env_ok (mgr0\<lparr>conn := Some 11\<rparr>) ''example.test'' 443 1 [] =
     Inr (Some 31, mgr0\<lparr>conn := Some 11\<rparr>,
          [Ev_stream_open 11 1 (Some 21), Ev_msg_get_initial 21 (Some 31)])"
  using C1_reuse [of mgr0 env_ok "''example.test''" 443 1 "[]"]
    C1_reuse [of "mgr0\<lparr>conn := Some 11\<rparr>" env_dead "''example.test''" 443 1 "[]"]
    C1_reuse [of "mgr0\<lparr>conn := Some 11\<rparr>" env_silent "''example.test''" 443 1 "[]"]
    C1_reuse [of "mgr0\<lparr>conn := Some 11\<rparr>" env_ok "''example.test''" 443 1 "[]"]
  by (simp add: mgr0_def env_ok_def env_dead_def env_silent_def)

text \<open>
  C2. Bounded retry. Every call of \<open>vlc_http_mgr_request\<close>, whatever its arguments, the
  manager's state and the answers of the collaborators, returns, having made at most
  one dial attempt and at most two stream-open attempts. In particular, once a freshly
  constructed connection is installed there is no further dial and at most one
  stream-open attempt, and if the stream on that connection fails the request returns
  nil.
\<close>

theorem C2_bounded_retry:
  "\<exists>res mgr' evs.
     vlc_http_mgr_request E mgr https host prt req lg = Inr (res, mgr', lg @ evs) \<and>
     n_dial evs \<le> 1 \<and> n_stream_open evs \<le> 2 \<and>
     n_dial (after_store evs) = 0 \<and> n_stream_open (after_store evs) \<le> 1 \<and>
     ((\<exists>e\<in>set (after_store evs). stream_failed e) \<longrightarrow> res = None)"
proof -
  obtain res mgr' evs where
    "vlc_http_mgr_request E mgr https host prt req lg = Inr (res, mgr', lg @ evs)"
    and "request_tr https mgr req evs res mgr'"
    using request_shape by blast
  then show ?thesis using request_tr_bounds by blast
qed

theorem C2_bounded_retry_witness:
  "vlc_http_mgr_request env_dead mgr_tls True ''example.test'' 0 1 [] =
     Inr (None, mgr_tls\<lparr>conn := None\<rparr>, retry_trace) \<and>
   n_dial retry_trace = 1 \<and> n_stream_open retry_trace = 2 \<and>
   after_store retry_trace = [Ev_stream_open 11 1 None, Ev_conn_release 11] \<and>
   stream_failed (Ev_stream_open 11 1 None)"
  using C2_bounded_retry [of env_dead mgr_tls True "''example.test''" 0 1 "[]"]
  by (simp add: run_defs env_dead_def env_ok_def mgr_tls_def n_dial_def n_stream_open_def
      after_store_def retry_trace_def)

text \<open>
  C3. Scheme mixing is rejected up front. An HTTPS request on a manager without
  credentials and with an occupied slot, and a plain HTTP request on a manager with
  credentials and an occupied slot, both return nil and leave the manager and the
  history exactly as they were: no collaborator is called, so nothing is dialed and no
  credentials are created.
\<close>

theorem C3_scheme_mix:
  "(creds mgr = None \<and> conn mgr \<noteq> None \<longrightarrow>
      vlc_http_mgr_request E mgr True host prt req lg = Inr (None, mgr, lg)) \<and>
   (creds mgr \<noteq> None \<and> conn mgr \<noteq> None \<longrightarrow>
      vlc_http_mgr_request E mgr False host prt req lg = Inr (None, mgr, lg))"
  by (simp add: vlc_http_mgr_request_def vlc_https_request_def vlc_http_request_def)

theorem C3_scheme_mix_witness:
  "vlc_http_mgr_request env_ok (mgr0\<lparr>conn := Some 12\<rparr>) True ''example.test'' 443 1 [] =
     Inr (None, mgr0\<lparr>conn := Some 12\<rparr>, []) \<and>
   vlc_http_mgr_request env_ok (mgr0\<lparr>creds := Some \<lparr>addr = 5, parent = 1\<rparr>, conn := Some 11\<rparr>)
       False ''example.test'' 80 1 [] =
     Inr (None, mgr0\<lparr>creds := Some \<lparr>addr = 5, parent = 1\<rparr>, conn := Some 11\<rparr>, [])"
  using C3_scheme_mix [of "mgr0\<lparr>conn := Some 12\<rparr>" env_ok "''example.test''" 443 1 "[]"]
    C3_scheme_mix [of "mgr0\<lparr>creds := Some \<lparr>addr = 5, parent = 1\<rparr>, conn := Some 11\<rparr>" env_ok
      "''example.test''" 80 1 "[]"]
  by (simp add: mgr0_def)

text \<open>
  C4. On the HTTPS path the TLS handshake offers the ALPN protocols "h2", "http/1.1" in
  that order when HTTP/2 is permitted and "http/1.1" alone when it is not, and writes
  back whether "h2" was negotiated (\<open>vlc_https_connect\<close>, first part). Within an HTTPS
  request HTTP/2 is always permitted; after a successful handshake exactly one
  connection constructor is called, on the transport of that handshake: the HTTP/2
  constructor when the negotiated string is "h2", and otherwise (another string, or no
  ALPN) the HTTP/1.1 constructor with the proxied flag false. No HTTP/1.1 connection of
  an HTTPS request is constructed with the proxied flag true. (When a proxy is
  configured the handshake is made inside \<open>vlc_https_connect_proxy\<close>, a collaborator;
  then only the flag it writes back is seen, and it selects the constructor the same
  way.)
\<close>

theorem C4_alpn_selects_version:
  "(\<exists>r. vlc_https_connect E cr name prt two lg =
      ((map_option fst r, (case r of None \<Rightarrow> two | Some (t, alp) \<Rightarrow> alp = Some ''h2'')),
       lg @ [Ev_SocketOpenTLS cr name (if prt = 0 then 443 else prt) ''https''
               (if two then [''h2'', ''http/1.1''] else [''http/1.1'']) r]))
   \<and>
   (\<exists>res mgr' evs.
      vlc_http_mgr_request E mgr True host prt' req lg' = Inr (res, mgr', lg' @ evs) \<and>
      (\<forall>c n p s off r. Ev_SocketOpenTLS c n p s off r \<in> set evs \<longrightarrow>
         off = [''h2'', ''http/1.1''] \<and>
         (\<forall>t alp. r = Some (t, alp) \<longrightarrow>
            (\<exists>c. ctor_calls evs = [if alp = Some ''h2'' then Ev_h2_conn_create (obj mgr) t c
                                   else Ev_h1_conn_create (obj mgr) t False c]))) \<and>
      (\<forall>ob t b c. Ev_h1_conn_create ob t b c \<in> set evs \<longrightarrow> \<not> b))"
proof
  show "\<exists>r. vlc_https_connect E cr name prt two lg =
      ((map_option fst r, (case r of None \<Rightarrow> two | Some (t, alp) \<Rightarrow> alp = Some ''h2'')),
       lg @ [Ev_SocketOpenTLS cr name (if prt = 0 then 443 else prt) ''https''
               (if two then [''h2'', ''http/1.1''] else [''http/1.1'']) r])"
    by (simp add: https_connect_eq Let_def)
next
  obtain res mgr' evs where
    r: "vlc_http_mgr_request E mgr True host prt' req lg' = Inr (res, mgr', lg' @ evs)"
    and t: "request_tr True mgr req evs res mgr'"
    using request_shape by blast
  show "\<exists>res mgr' evs.
      vlc_http_mgr_request E mgr True host prt' req lg' = Inr (res, mgr', lg' @ evs) \<and>
      (\<forall>c n p s off r. Ev_SocketOpenTLS c n p s off r \<in> set evs \<longrightarrow>
         off = [''h2'', ''http/1.1''] \<and>
         (\<forall>t alp. r = Some (t, alp) \<longrightarrow>
            (\<exists>c. ctor_calls evs = [if alp = Some ''h2'' then Ev_h2_conn_create (obj mgr) t c
                                   else Ev_h1_conn_create (obj mgr) t False c]))) \<and>
      (\<forall>ob t b c. Ev_h1_conn_create ob t b c \<in> set evs \<longrightarrow> \<not> b)"
    using r request_tr_alpn [OF t] request_tr_h1_unproxied [OF t] by blast
qed

theorem C4_alpn_selects_version_witness:
  "vlc_http_mgr_request env_h1 mgr0 True ''example.test'' 0 1 [] =
     Inr (Some 31, mgr0\<lparr>creds := Some \<lparr>addr = 5, parent = 1\<rparr>, conn := Some 12\<rparr>,
       [Ev_ClientCreate 1 (Some \<lparr>addr = 5, parent = 1\<rparr>),
        Ev_asprintf ''https://example.test'' True,
        Ev_getProxyUrl ''https://example.test'' None,
        Ev_SocketOpenTLS \<lparr>addr = 5, parent = 1\<rparr> ''example.test'' 443 ''https''
          [''h2'', ''http/1.1''] (Some (7, Some ''http/1.1'')),
        Ev_h1_conn_create 1 7 False (Some 12), Ev_conn_store None 12,
        Ev_stream_open 12 1 (Some 21), Ev_msg_get_initial 21 (Some 31)]) \<and>
   vlc_http_mgr_request env_ok mgr0 True ''example.test'' 0 1 [] =
     Inr (Some 31, mgr0\<lparr>creds := Some \<lparr>addr = 5, parent = 1\<rparr>, conn := Some 11\<rparr>,
       [Ev_ClientCreate 1 (Some \<lparr>addr = 5, parent = 1\<rparr>),
        Ev_asprintf ''https://example.test'' True,
        Ev_getProxyUrl ''https://example.test'' None,
        Ev_SocketOpenTLS \<lparr>addr = 5, parent = 1\<rparr> ''example.test'' 443 ''https''
          [''h2'', ''http/1.1''] (Some (7, Some ''h2'')),
        Ev_h2_conn_create 1 7 (Some 11), Ev_conn_store None 11,
        Ev_stream_open 11 1 (Some 21), Ev_msg_get_initial 21 (Some 31)]) \<and>
   vlc_https_connect env_h1 \<lparr>addr = 5, parent = 1\<rparr> ''example.test'' 443 False [] =
     ((Some 7, False),
      [Ev_SocketOpenTLS \<lparr>addr = 5, parent = 1\<rparr> ''example.test'' 443 ''https''
         [''http/1.1''] (Some (7, Some ''http/1.1''))])"
  using C4_alpn_selects_version [of env_h1 "\<lparr>addr = 5, parent = 1\<rparr>" "''example.test''" 443
      False "[]" mgr0 "''example.test''" 0 1 "[]"]
    C4_alpn_selects_version [of env_ok "\<lparr>addr = 5, parent = 1\<rparr>" "''example.test''" 443
      False "[]" mgr0 "''example.test''" 0 1 "[]"]
  by (simp add: run_defs env_ok_def env_h1_def mgr0_def)

text \<open>
  C5. Cache exclusivity. In every request, from any manager state, and over every
  lifetime of a manager (create, any list of requests, destroy), the history passes
  the replay \<open>conns_ok\<close>: at every point at most one connection is open, a connection
  is constructed only when none is open, a connection is released only if it is the
  open one, and every store of a freshly constructed connection into the slot finds the
  slot empty, so no connection is overwritten without having been released. During a
  request the open connection at the start and at the end is the one in the slot; at
  the end of a lifetime none is open.
\<close>

theorem C5_cache_exclusivity:
  "(\<exists>res mgr' evs.
      vlc_http_mgr_request E mgr https host prt req lg = Inr (res, mgr', lg @ evs) \<and>
      conns_ok (conn mgr) evs \<and> conns_end (conn mgr) evs = conn mgr' \<and>
      (\<forall>old c. Ev_conn_store old c \<in> set evs \<longrightarrow> old = None)) \<and>
   (\<exists>evs. mgr_lifetime E ob j h2c cs lg' = Inr (lg' @ evs) \<and>
      conns_ok None evs \<and> conns_end None evs = None \<and>
      (\<forall>old c. Ev_conn_store old c \<in> set evs \<longrightarrow> old = None))"
proof
  obtain res mgr' evs where
    r: "vlc_http_mgr_request E mgr https host prt req lg = Inr (res, mgr', lg @ evs)"
    and t: "request_tr https mgr req evs res mgr'"
    using request_shape by blast
  from r request_tr_conns [OF t] conns_ok_store [of "conn mgr" evs]
  show "\<exists>res mgr' evs.
      vlc_http_mgr_request E mgr https host prt req lg = Inr (res, mgr', lg @ evs) \<and>
      conns_ok (conn mgr) evs \<and> conns_end (conn mgr) evs = conn mgr' \<and>
      (\<forall>old c. Ev_conn_store old c \<in> set evs \<longrightarrow> old = None)"
    by blast
next
  obtain evs where l: "mgr_lifetime E ob j h2c cs lg' = Inr (lg' @ evs)"
    and s: "evs = [Ev_malloc False] \<or>
      (\<exists>rs mgr'. requests_tr \<lparr>obj = ob, creds = None, jar = j, conn = None, use_h2c = h2c\<rparr>
          rs mgr' \<and>
        evs = [Ev_malloc True] @ rs @
          (case conn mgr' of None \<Rightarrow> [] | Some c \<Rightarrow> [Ev_conn_release c]) @
          (case creds mgr' of None \<Rightarrow> [] | Some cr \<Rightarrow> [Ev_tls_Delete cr]))"
    using lifetime_shape by blast
  have ok: "conns_ok None evs \<and> conns_end None evs = None"
    using s
  proof
    assume "evs = [Ev_malloc False]"
    then show ?thesis by simp
  next
    assume "\<exists>rs mgr'. requests_tr \<lparr>obj = ob, creds = None, jar = j, conn = None, use_h2c = h2c\<rparr>
          rs mgr' \<and>
        evs = [Ev_malloc True] @ rs @
          (case conn mgr' of None \<Rightarrow> [] | Some c \<Rightarrow> [Ev_conn_release c]) @
          (case creds mgr' of None \<Rightarrow> [] | Some cr \<Rightarrow> [Ev_tls_Delete cr])"
    then obtain rs mgr' where
      t: "requests_tr \<lparr>obj = ob, creds = None, jar = j, conn = None, use_h2c = h2c\<rparr> rs mgr'"
      and e: "evs = [Ev_malloc True] @ rs @
          (case conn mgr' of None \<Rightarrow> [] | Some c \<Rightarrow> [Ev_conn_release c]) @
          (case creds mgr' of None \<Rightarrow> [] | Some cr \<Rightarrow> [Ev_tls_Delete cr])"
      by blast
    from requests_tr_conns [OF t] e show ?thesis
      by (simp add: conns_ok_append conns_end_append split: option.splits)
  qed
  with l conns_ok_store [of None evs]
  show "\<exists>evs. mgr_lifetime E ob j h2c cs lg' = Inr (lg' @ evs) \<and>
      conns_ok None evs \<and> conns_end None evs = None \<and>
      (\<forall>old c. Ev_conn_store old c \<in> set evs \<longrightarrow> old = None)"
    by blast
qed

theorem C5_cache_exclusivity_witness:
  "vlc_http_mgr_request env_dead mgr_tls True ''example.test'' 0 1 [] =
     Inr (None, mgr_tls\<lparr>conn := None\<rparr>, retry_trace) \<and>
   mgr_lifetime env_ok 1 None False
       [(True, ''example.test'', 0, 1), (True, ''example.test'', 0, 2)] [] =
     Inr lifetime_trace \<and>
   conns_ok (Some 10) retry_trace \<and> conns_ok None lifetime_trace \<and>
   \<not> conns_ok (Some 10) [Ev_h2_conn_create 1 7 (Some 11), Ev_conn_store (Some 10) 11]"
  using C5_cache_exclusivity [of env_dead mgr_tls True "''example.test''" 0 1 "[]"
      1 None False "[]" "[]"]
    C5_cache_exclusivity [of env_ok mgr0 True "''example.test''" 0 1 "[]"
      1 None False "[(True, ''example.test'', 0, 1), (True, ''example.test'', 0, 2)]" "[]"]
  by (simp add: run_defs life_defs env_dead_def env_ok_def mgr_tls_def retry_trace_def
      lifetime_trace_def)

text \<open>
  C6, as the specification words it. It places the creation of the credentials "on the
  first HTTPS request" and has them "released exactly once, at destroy". Neither holds
  in every lifetime of a manager. In the first lifetime below a plaintext request is
  answered and its connection cached; the HTTPS request that follows, the first one of
  that manager, is refused for scheme mix before anything is created, and the destroy
  finds no credentials to release. In the second lifetime the creation fails in the
  first HTTPS request and the credentials are created in the second.
\<close>

theorem C6_first_https_request_counterexample:
  "mgr_lifetime env_ok 1 None False
       [(False, ''example.test'', 0, 1), (True, ''example.test'', 0, 2)] [] =
     Inr plain_first_trace \<and>
   filter creds_attempt plain_first_trace = [] \<and>
   filter creds_deleted plain_first_trace = [] \<and>
   mgr_lifetime env_late_creds 1 None False
       [(True, ''example.test'', 0, 1), (True, ''example.test'', 0, 2)] [] =
     Inr late_creds_trace \<and>
   filter creds_attempt late_creds_trace =
     [Ev_ClientCreate 1 None, Ev_ClientCreate 1 (Some \<lparr>addr = 5, parent = 1\<rparr>)]"
  by (simp add: run_defs life_defs env_ok_def env_late_creds_def plain_first_trace_def
      late_creds_trace_def)

text \<open>
  C6, amended. Credentials are created lazily and at most once per manager, and never
  leak. \<open>vlc_http_mgr_create\<close> calls nothing but the allocator and leaves the credentials
  field and the slot empty. A request never deletes credentials. It attempts the
  creation exactly when it is an HTTPS request that finds no credentials and an empty
  slot (which need not be the manager's first HTTPS request): then the attempt is its
  first call and its only attempt, and the result is what the credentials field holds
  afterwards; any other request makes no attempt and leaves the field as it is. If the
  creation fails, the request does nothing else: it returns nil and the manager is
  exactly as before, with no credentials and no cached connection, so the entry check
  of a later plaintext request passes. \<open>vlc_http_mgr_destroy\<close> attempts no creation and
  deletes exactly the credentials the manager holds, none if it holds none. Over a
  lifetime of a manager there are at most as many attempts as HTTPS requests,
  credentials are created at most once and deleted as often as they were created, and
  the deletion is the last event of the lifetime and deletes the credentials that were
  created.
\<close>

theorem C6_credentials:
  "vlc_http_mgr_create E ob j h2c lg0 =
     ((if malloc_ok E lg0
       then Some \<lparr>obj = ob, creds = None, jar = j, conn = None, use_h2c = h2c\<rparr>
       else None),
      lg0 @ [Ev_malloc (malloc_ok E lg0)]) \<and>
   (\<exists>res mgr' evs.
      vlc_http_mgr_request E mgr https host prt req lg = Inr (res, mgr', lg @ evs) \<and>
      (\<forall>e\<in>set evs. \<not> creds_deleted e) \<and>
      length (filter creds_attempt evs) \<le> 1 \<and>
      (https \<and> creds mgr = None \<and> conn mgr = None \<longrightarrow>
         (\<exists>rest. evs = Ev_ClientCreate (obj mgr) (vlc_tls_ClientCreate E lg (obj mgr)) # rest \<and>
            (\<forall>e\<in>set rest. \<not> creds_attempt e)) \<and>
         creds mgr' = vlc_tls_ClientCreate E lg (obj mgr)) \<and>
      (\<not> (https \<and> creds mgr = None \<and> conn mgr = None) \<longrightarrow>
         (\<forall>e\<in>set evs. \<not> creds_attempt e) \<and> creds mgr' = creds mgr) \<and>
      (\<forall>ob'. Ev_ClientCreate ob' None \<in> set evs \<longrightarrow>
         res = None \<and> mgr' = mgr \<and> creds mgr' = None \<and> conn mgr' = None \<and>
         evs = [Ev_ClientCreate (obj mgr) None])) \<and>
   (\<exists>evs. vlc_http_mgr_destroy m lg1 = Inr (lg1 @ evs) \<and>
      (\<forall>e\<in>set evs. \<not> creds_attempt e) \<and>
      filter creds_deleted evs = (case creds m of None \<Rightarrow> [] | Some cr \<Rightarrow> [Ev_tls_Delete cr])) \<and>
   (\<exists>evs. mgr_lifetime E ob j h2c cs lg' = Inr (lg' @ evs) \<and>
      length (filter creds_attempt evs) \<le> length (filter fst cs) \<and>
      length (filter creds_created evs) \<le> 1 \<and>
      length (filter creds_deleted evs) = length (filter creds_created evs) \<and>
      (\<forall>e\<in>set (butlast evs). \<not> creds_deleted e) \<and>
      (\<forall>cr. Ev_tls_Delete cr \<in> set evs \<longrightarrow>
         (\<exists>ob'. Ev_ClientCreate ob' (Some cr) \<in> set evs)))"
proof (intro conjI)
  show "vlc_http_mgr_create E ob j h2c lg0 =
     ((if malloc_ok E lg0
       then Some \<lparr>obj = ob, creds = None, jar = j, conn = None, use_h2c = h2c\<rparr>
       else None),
      lg0 @ [Ev_malloc (malloc_ok E lg0)])"
    by (simp add: vlc_http_mgr_create_def Let_def)
next
  obtain res mgr' evs where
    r: "vlc_http_mgr_request E mgr https host prt req lg = Inr (res, mgr', lg @ evs)"
    and t: "request_tr https mgr req evs res mgr'"
    using request_shape by blast
  note k = request_tr_creds [OF t]
  have first: "https \<and> creds mgr = None \<and> conn mgr = None \<longrightarrow>
         (\<exists>rest. evs = Ev_ClientCreate (obj mgr) (vlc_tls_ClientCreate E lg (obj mgr)) # rest \<and>
            (\<forall>e\<in>set rest. \<not> creds_attempt e)) \<and>
         creds mgr' = vlc_tls_ClientCreate E lg (obj mgr)"
  proof
    assume a: "https \<and> creds mgr = None \<and> conn mgr = None"
    then obtain res2 mgr2 rest where
      e: "vlc_http_mgr_request E mgr True host prt req lg =
             Inr (res2, mgr2,
                  lg @ Ev_ClientCreate (obj mgr) (vlc_tls_ClientCreate E lg (obj mgr)) # rest)"
      and q: "creds_quiet rest" and c: "creds mgr2 = vlc_tls_ClientCreate E lg (obj mgr)"
      using https_first_attempt [of mgr E host prt req lg] by blast
    from a r e have "evs = Ev_ClientCreate (obj mgr) (vlc_tls_ClientCreate E lg (obj mgr)) # rest"
      and "mgr' = mgr2" by simp_all
    with q c show "(\<exists>rest. evs =
            Ev_ClientCreate (obj mgr) (vlc_tls_ClientCreate E lg (obj mgr)) # rest \<and>
            (\<forall>e\<in>set rest. \<not> creds_attempt e)) \<and>
         creds mgr' = vlc_tls_ClientCreate E lg (obj mgr)"
      by (simp add: creds_quiet_def)
  qed
  have other: "\<not> (https \<and> creds mgr = None \<and> conn mgr = None) \<longrightarrow>
         (\<forall>e\<in>set evs. \<not> creds_attempt e) \<and> creds mgr' = creds mgr"
  proof
    assume n: "\<not> (https \<and> creds mgr = None \<and> conn mgr = None)"
    show "(\<forall>e\<in>set evs. \<not> creds_attempt e) \<and> creds mgr' = creds mgr"
    proof (cases "\<not> https \<or> creds mgr \<noteq> None")
      case True
      with k show ?thesis by blast
    next
      case False
      with n have m: "https" "creds mgr = None" "conn mgr \<noteq> None" by auto
      then have "vlc_http_mgr_request E mgr https host prt req lg = Inr (None, mgr, lg)"
        by (simp add: vlc_http_mgr_request_def vlc_https_request_def)
      with r have "evs = []" "mgr' = mgr" by simp_all
      then show ?thesis by simp
    qed
  qed
  from r k first other
  show "\<exists>res mgr' evs.
      vlc_http_mgr_request E mgr https host prt req lg = Inr (res, mgr', lg @ evs) \<and>
      (\<forall>e\<in>set evs. \<not> creds_deleted e) \<and>
      length (filter creds_attempt evs) \<le> 1 \<and>
      (https \<and> creds mgr = None \<and> conn mgr = None \<longrightarrow>
         (\<exists>rest. evs = Ev_ClientCreate (obj mgr) (vlc_tls_ClientCreate E lg (obj mgr)) # rest \<and>
            (\<forall>e\<in>set rest. \<not> creds_attempt e)) \<and>
         creds mgr' = vlc_tls_ClientCreate E lg (obj mgr)) \<and>
      (\<not> (https \<and> creds mgr = None \<and> conn mgr = None) \<longrightarrow>
         (\<forall>e\<in>set evs. \<not> creds_attempt e) \<and> creds mgr' = creds mgr) \<and>
      (\<forall>ob'. Ev_ClientCreate ob' None \<in> set evs \<longrightarrow>
         res = None \<and> mgr' = mgr \<and> creds mgr' = None \<and> conn mgr' = None \<and>
         evs = [Ev_ClientCreate (obj mgr) None])"
    by blast
next
  show "\<exists>evs. vlc_http_mgr_destroy m lg1 = Inr (lg1 @ evs) \<and>
      (\<forall>e\<in>set evs. \<not> creds_attempt e) \<and>
      filter creds_deleted evs = (case creds m of None \<Rightarrow> [] | Some cr \<Rightarrow> [Ev_tls_Delete cr])"
    by (rule destroy_creds)
next
  obtain evs where l: "mgr_lifetime E ob j h2c cs lg' = Inr (lg' @ evs)"
    and p: "length (filter creds_created evs) \<le> 1"
      "length (filter creds_deleted evs) = length (filter creds_created evs)"
      "\<forall>e\<in>set (butlast evs). \<not> creds_deleted e"
      "\<forall>cr. Ev_tls_Delete cr \<in> set evs \<longrightarrow> (\<exists>ob'. Ev_ClientCreate ob' (Some cr) \<in> set evs)"
    using lifetime_creds [of E ob j h2c cs lg'] by blast
  obtain evs' where l': "mgr_lifetime E ob j h2c cs lg' = Inr (lg' @ evs')"
    and n: "length (filter creds_attempt evs') \<le> length (filter fst cs)"
    using lifetime_attempts by blast
  from l l' have "evs' = evs" by simp
  with l p n
  show "\<exists>evs. mgr_lifetime E ob j h2c cs lg' = Inr (lg' @ evs) \<and>
      length (filter creds_attempt evs) \<le> length (filter fst cs) \<and>
      length (filter creds_created evs) \<le> 1 \<and>
      length (filter creds_deleted evs) = length (filter creds_created evs) \<and>
      (\<forall>e\<in>set (butlast evs). \<not> creds_deleted e) \<and>
      (\<forall>cr. Ev_tls_Delete cr \<in> set evs \<longrightarrow>
         (\<exists>ob'. Ev_ClientCreate ob' (Some cr) \<in> set evs))"
    by blast
qed

theorem C6_credentials_witness:
  "vlc_http_mgr_create env_ok 1 None False [] = (Some mgr0, [Ev_malloc True]) \<and>
   creds mgr0 = None \<and> conn mgr0 = None \<and>
   vlc_http_mgr_request env_nocreds mgr0 True ''example.test'' 0 1 [] =
     Inr (None, mgr0, [Ev_ClientCreate 1 None]) \<and>
   vlc_http_mgr_request env_nocreds mgr0 False ''example.test'' 0 2 [Ev_ClientCreate 1 None] =
     Inr (Some 31, mgr0\<lparr>conn := Some 12\<rparr>,
       [Ev_ClientCreate 1 None,
        Ev_asprintf ''http://example.test'' True, Ev_getProxyUrl ''http://example.test'' None,
        Ev_SocketOpenTCP 1 ''example.test'' 80 (Some 9),
        Ev_h1_conn_create 1 9 False (Some 12), Ev_conn_store None 12,
        Ev_stream_open 12 2 (Some 21), Ev_msg_get_initial 21 (Some 31)]) \<and>
   vlc_http_mgr_request env_ok mgr_plain True ''example.test'' 0 1 [] =
     Inr (None, mgr_plain, []) \<and>
   vlc_http_mgr_destroy mgr_tls [] =
     Inr [Ev_conn_release 10, Ev_tls_Delete \<lparr>addr = 5, parent = 1\<rparr>] \<and>
   mgr_lifetime env_ok 1 None False
       [(True, ''example.test'', 0, 1), (True, ''example.test'', 0, 2)] [] =
     Inr lifetime_trace \<and>
   mgr_lifetime env_late_creds 1 None False
       [(True, ''example.test'', 0, 1), (True, ''example.test'', 0, 2)] [] =
     Inr late_creds_trace"
  using C6_credentials [where E = env_nocreds and mgr = mgr0 and https = True
      and host = "''example.test''" and prt = 0 and req = 1 and lg = "[]" and m = mgr_tls
      and ?lg1.0 = "[]" and ob = 1 and j = None and h2c = False and ?lg0.0 = "[]"
      and cs = "[]" and lg' = "[]"]
    C6_credentials [where E = env_ok and mgr = mgr_plain and https = True
      and host = "''example.test''" and prt = 0 and req = 1 and lg = "[]" and m = mgr_tls
      and ?lg1.0 = "[]" and ob = 1 and j = None and h2c = False and ?lg0.0 = "[]"
      and cs = "[(True, ''example.test'', 0, 1), (True, ''example.test'', 0, 2)]" and lg' = "[]"]
    C6_credentials [where E = env_late_creds and mgr = mgr0 and https = True
      and host = "''example.test''" and prt = 0 and req = 1 and lg = "[]" and m = mgr_tls
      and ?lg1.0 = "[]" and ob = 1 and j = None and h2c = False and ?lg0.0 = "[]"
      and cs = "[(True, ''example.test'', 0, 1), (True, ''example.test'', 0, 2)]" and lg' = "[]"]
  by (simp add: run_defs life_defs env_nocreds_def env_ok_def env_late_creds_def mgr0_def
      mgr_plain_def mgr_tls_def lifetime_trace_def late_creds_trace_def)

text \<open>
  C7. Whenever, in a request, a connection constructor (HTTP/1.1 or HTTP/2) called on a
  transport returns nil, that transport is one a dial attempt of this request returned,
  the last thing the request does is close it, the request returns nil, and nothing is
  installed: no connection is stored and the slot is empty.
\<close>

theorem C7_constructor_failure:
  "\<exists>res mgr' evs.
     vlc_http_mgr_request E mgr https host prt req lg = Inr (res, mgr', lg @ evs) \<and>
     (\<forall>k t. k \<in> set evs \<and> constructed k = Some (t, None) \<longrightarrow>
        (\<exists>d\<in>set evs. is_dial d \<and> dialed d = Some t) \<and>
        last evs = Ev_tls_Close t \<and> res = None \<and>
        conn mgr' = None \<and> (\<forall>e\<in>set evs. \<not> is_store e))"
proof -
  obtain res mgr' evs where
    "vlc_http_mgr_request E mgr https host prt req lg = Inr (res, mgr', lg @ evs)"
    and "request_tr https mgr req evs res mgr'"
    using request_shape by blast
  then show ?thesis using request_tr_ctor_failed by blast
qed

theorem C7_constructor_failure_witness:
  "vlc_http_mgr_request env_noconn mgr0 False ''example.test'' 0 1 [] =
     Inr (None, mgr0,
       [Ev_asprintf ''http://example.test'' True, Ev_getProxyUrl ''http://example.test'' None,
        Ev_SocketOpenTCP 1 ''example.test'' 80 (Some 9), Ev_h1_conn_create 1 9 False None,
        Ev_tls_Close 9]) \<and>
   constructed (Ev_h1_conn_create 1 9 False None) = Some (9, None) \<and>
   dialed (Ev_SocketOpenTCP 1 ''example.test'' 80 (Some 9)) = Some 9 \<and>
   conn mgr0 = None"
  using C7_constructor_failure [of env_noconn mgr0 False "''example.test''" 0 1 "[]"]
  by (simp add: run_defs env_noconn_def env_ok_def mgr0_def)

text \<open>
  C8. Default ports. The TLS dial \<open>vlc_https_connect\<close> opens its transport to port 443
  when its port argument is 0 and to the given port otherwise. The plaintext dial
  \<open>vlc_http_connect_i11e\<close> reports a proxied connection exactly when the proxy lookup
  returned a URL. Without a proxy its one dial attempt is a TCP connection to the host,
  to port 80 when the port argument is 0 and to the given port otherwise. With a proxy
  the proxy URL is parsed; if it has a host, the one dial attempt is a TCP connection
  to that host, to port 80 when the parsed port is 0 (the URL carries no port) and to
  the parsed port otherwise; if it has no host nothing is dialed.
\<close>

theorem C8_default_ports:
  "(\<exists>t f off r. vlc_https_connect E cr name prt two lg =
       ((t, f), lg @ [Ev_SocketOpenTLS cr name (if prt = 0 then 443 else prt) ''https'' off r]))
   \<and>
   (\<exists>t px evs. vlc_http_connect_i11e E ob host prt lg' = ((t, px), lg' @ evs) \<and>
      px = (\<exists>u p. Ev_getProxyUrl u (Some p) \<in> set evs) \<and>
      (\<not> px \<longrightarrow>
         filter is_dial evs = [Ev_SocketOpenTCP ob host (if prt = 0 then 80 else prt) t]) \<and>
      (px \<longrightarrow>
         (\<exists>u p url. Ev_getProxyUrl u (Some p) \<in> set evs \<and> Ev_UrlParse p url \<in> set evs \<and>
            (case psz_host url of
               None \<Rightarrow> t = None \<and> filter is_dial evs = []
             | Some h \<Rightarrow>
                 filter is_dial evs =
                   [Ev_SocketOpenTCP ob h (if i_port url = 0 then 80 else i_port url) t]))))"
  using http_connect_ports [of E ob host prt lg'] by (simp add: https_connect_eq Let_def)

theorem C8_default_ports_witness:
  "vlc_https_connect env_ok \<lparr>addr = 5, parent = 1\<rparr> ''example.test'' 0 True [] =
     ((Some 7, True),
      [Ev_SocketOpenTLS \<lparr>addr = 5, parent = 1\<rparr> ''example.test'' 443 ''https''
         [''h2'', ''http/1.1''] (Some (7, Some ''h2''))]) \<and>
   vlc_http_connect_i11e env_ok 1 ''example.test'' 0 [] =
     ((Some 9, False),
      [Ev_asprintf ''http://example.test'' True, Ev_getProxyUrl ''http://example.test'' None,
       Ev_SocketOpenTCP 1 ''example.test'' 80 (Some 9)]) \<and>
   vlc_http_connect_i11e env_proxy 1 ''example.test'' 0 [] =
     ((Some 9, True),
      [Ev_asprintf ''http://example.test'' True,
       Ev_getProxyUrl ''http://example.test'' (Some ''http://proxy.test''),
       Ev_UrlParse ''http://proxy.test'' \<lparr>psz_host = Some ''proxy.test'', i_port = 0\<rparr>,
       Ev_SocketOpenTCP 1 ''proxy.test'' 80 (Some 9),
       Ev_UrlClean \<lparr>psz_host = Some ''proxy.test'', i_port = 0\<rparr>]) \<and>
   vlc_http_connect_i11e env_proxy_port 1 ''example.test'' 0 [] =
     ((Some 9, True),
      [Ev_asprintf ''http://example.test'' True,
       Ev_getProxyUrl ''http://example.test'' (Some ''http://proxy.test:3128''),
       Ev_UrlParse ''http://proxy.test:3128''
         \<lparr>psz_host = Some ''proxy.test'', i_port = 3128\<rparr>,
       Ev_SocketOpenTCP 1 ''proxy.test'' 3128 (Some 9),
       Ev_UrlClean \<lparr>psz_host = Some ''proxy.test'', i_port = 3128\<rparr>]) \<and>
   vlc_http_connect_i11e env_proxy_nohost 1 ''example.test'' 0 [] =
     ((None, True),
      [Ev_asprintf ''http://example.test'' True,
       Ev_getProxyUrl ''http://example.test'' (Some ''http://proxy.test''),
       Ev_UrlParse ''http://proxy.test'' \<lparr>psz_host = None, i_port = 0\<rparr>,
       Ev_UrlClean \<lparr>psz_host = None, i_port = 0\<rparr>])"
  using C8_default_ports [of env_ok "\<lparr>addr = 5, parent = 1\<rparr>" "''example.test''" 0 True "[]"
      1 "''example.test''" "[]"]
    C8_default_ports [of env_proxy "\<lparr>addr = 5, parent = 1\<rparr>" "''example.test''" 0 True "[]"
      1 "''example.test''" "[]"]
    C8_default_ports [of env_proxy_port "\<lparr>addr = 5, parent = 1\<rparr>" "''example.test''" 0 True
      "[]" 1 "''example.test''" "[]"]
    C8_default_ports [of env_proxy_nohost "\<lparr>addr = 5, parent = 1\<rparr>" "''example.test''" 0
      True "[]" 1 "''example.test''" "[]"]
  by (simp add: run_defs env_ok_def env_proxy_def env_proxy_port_def env_proxy_nohost_def)

text \<open>
  C9. The cache lookup is host-agnostic: for every manager state and every host and
  port, \<open>vlc_http_mgr_find\<close> returns the content of the connection slot (the cached
  connection, or nothing when the slot is empty), and so returns the same for any two
  origins.
\<close>

theorem C9_find_ignores_origin:
  "vlc_http_mgr_find mgr host prt = conn mgr \<and>
   vlc_http_mgr_find mgr host prt = vlc_http_mgr_find mgr host' prt'"
  by (simp add: vlc_http_mgr_find_def)

text \<open>
  C10. Failure leaves no dead connection cached. When \<open>vlc_http_mgr_request\<close> returns
  nil, the slot is afterwards what it was before the call or empty: if the request
  opened no stream (scheme mix, credential, dial or construction failure on an
  empty slot) the slot is unchanged; if it opened a stream, on the cached or on the
  freshly installed connection, every connection it opened a stream on has been
  released and the slot is empty, so the slot never holds a connection whose stream
  just failed.
\<close>

theorem C10_no_dead_connection_cached:
  "\<exists>res mgr' evs.
     vlc_http_mgr_request E mgr https host prt req lg = Inr (res, mgr', lg @ evs) \<and>
     (res = None \<longrightarrow>
        (conn mgr' = conn mgr \<or> conn mgr' = None) \<and>
        ((\<forall>e\<in>set evs. \<not> is_stream_open e) \<longrightarrow> conn mgr' = conn mgr) \<and>
        ((\<exists>e\<in>set evs. is_stream_open e) \<longrightarrow> conn mgr' = None) \<and>
        (\<forall>c r s. Ev_stream_open c r s \<in> set evs \<longrightarrow>
           Ev_conn_release c \<in> set evs \<and> conn mgr' \<noteq> Some c))"
proof -
  obtain res mgr' evs where r:
    "vlc_http_mgr_request E mgr https host prt req lg = Inr (res, mgr', lg @ evs)"
    and t: "request_tr https mgr req evs res mgr'"
    using request_shape by blast
  have "res = None \<longrightarrow>
        (conn mgr' = conn mgr \<or> conn mgr' = None) \<and>
        ((\<forall>e\<in>set evs. \<not> is_stream_open e) \<longrightarrow> conn mgr' = conn mgr) \<and>
        ((\<exists>e\<in>set evs. is_stream_open e) \<longrightarrow> conn mgr' = None) \<and>
        (\<forall>c r s. Ev_stream_open c r s \<in> set evs \<longrightarrow>
           Ev_conn_release c \<in> set evs \<and> conn mgr' \<noteq> Some c)"
  proof
    assume "res = None"
    with t have t': "request_tr https mgr req evs None mgr'" by simp
    note f = request_tr_failure [OF t']
    have o: "Ev_stream_open c r s \<in> set evs \<Longrightarrow> \<exists>e\<in>set evs. is_stream_open e" for c r s
      by (rule bexI [of _ "Ev_stream_open c r s"]) simp_all
    from f o show "(conn mgr' = conn mgr \<or> conn mgr' = None) \<and>
        ((\<forall>e\<in>set evs. \<not> is_stream_open e) \<longrightarrow> conn mgr' = conn mgr) \<and>
        ((\<exists>e\<in>set evs. is_stream_open e) \<longrightarrow> conn mgr' = None) \<and>
        (\<forall>c r s. Ev_stream_open c r s \<in> set evs \<longrightarrow>
           Ev_conn_release c \<in> set evs \<and> conn mgr' \<noteq> Some c)"
      by (metis option.distinct(1))
  qed
  with r show ?thesis by blast
qed

theorem C10_no_dead_connection_cached_witness:
  "vlc_http_mgr_request env_silent mgr_plain False ''example.test'' 0 1 [] =
     Inr (None, mgr_plain\<lparr>conn := None\<rparr>,
       [Ev_stream_open 10 1 (Some 21), Ev_msg_get_initial 21 None, Ev_conn_release 10,
        Ev_asprintf ''http://example.test'' True, Ev_getProxyUrl ''http://example.test'' None,
        Ev_SocketOpenTCP 1 ''example.test'' 80 (Some 9),
        Ev_h1_conn_create 1 9 False (Some 12), Ev_conn_store None 12,
        Ev_stream_open 12 1 (Some 21), Ev_msg_get_initial 21 None, Ev_conn_release 12]) \<and>
   is_stream_open (Ev_stream_open 12 1 (Some 21)) \<and>
   conn (mgr_plain\<lparr>conn := None\<rparr>) = None"
  using C10_no_dead_connection_cached [of env_silent mgr_plain False "''example.test''" 0 1 "[]"]
  by (simp add: run_defs env_silent_def env_ok_def mgr_plain_def)

end
